theory Spec2Isabelle
  imports Complex_Main "HOL-Library.Word" "HOL-Library.Log_Nat"
begin

section \<open>JavaScript strings\<close>

text \<open>
  A JavaScript string is a sequence of UTF-16 code units. Literals of the source are
  written with \<open>ustr\<close>, which maps an ASCII literal to its code units.
\<close>

type_synonym jschar = "16 word"
type_synonym jsstring = "jschar list"

definition ustr :: "string \<Rightarrow> jsstring" where
  "ustr s = map (\<lambda>c. of_nat (of_char c)) s"

text \<open>
  \<open>String.prototype.trim\<close> strips ECMAScript white space and line terminators from
  both ends: TAB, LF, VT, FF, CR, SP, NBSP, U+1680, U+2000..U+200A, U+2028, U+2029,
  U+202F, U+205F, U+3000 and U+FEFF.
\<close>

definition isWhiteSpace :: "jschar \<Rightarrow> bool" where
  "isWhiteSpace c \<longleftrightarrow>
     c \<in> set [0x9, 0xA, 0xB, 0xC, 0xD, 0x20, 0xA0, 0x1680, 0x2028, 0x2029, 0x202F,
              0x205F, 0x3000, 0xFEFF]
     \<or> (0x2000 \<le> c \<and> c \<le> 0x200A)"

definition trim :: "jsstring \<Rightarrow> jsstring" where
  "trim s = rev (dropWhile isWhiteSpace (rev (dropWhile isWhiteSpace s)))"

text \<open>Truthiness of a string-or-null value: \<open>null\<close>, \<open>undefined\<close> and \<open>""\<close> are falsy.\<close>

fun truthy :: "jsstring option \<Rightarrow> bool" where
  "truthy None = False"
| "truthy (Some s) = (s \<noteq> [])"

section \<open>Regular expressions\<close>

text \<open>
  The fragment of regular expressions that \<open>/^-?\d+$/\<close> needs, matched by derivatives.
  \<open>RegExp.prototype.test\<close> on a pattern anchored by \<open>^\<close> and \<open>$\<close> (no \<open>m\<close> flag)
  succeeds exactly when the whole string matches the body.
\<close>

datatype regex =
    RNever
  | REmpty
  | RChar jschar
  | RDigit
  | ROpt regex
  | RPlus regex
  | RStar regex
  | RSeq regex regex
  | RAlt regex regex

definition isDigit :: "jschar \<Rightarrow> bool" where
  "isDigit c \<longleftrightarrow> 0x30 \<le> c \<and> c \<le> 0x39"

fun nullable :: "regex \<Rightarrow> bool" where
  "nullable RNever = False"
| "nullable REmpty = True"
| "nullable (RChar _) = False"
| "nullable RDigit = False"
| "nullable (ROpt _) = True"
| "nullable (RPlus r) = nullable r"
| "nullable (RStar _) = True"
| "nullable (RSeq r s) = (nullable r \<and> nullable s)"
| "nullable (RAlt r s) = (nullable r \<or> nullable s)"

fun deriv :: "jschar \<Rightarrow> regex \<Rightarrow> regex" where
  "deriv c RNever = RNever"
| "deriv c REmpty = RNever"
| "deriv c (RChar d) = (if c = d then REmpty else RNever)"
| "deriv c RDigit = (if isDigit c then REmpty else RNever)"
| "deriv c (ROpt r) = deriv c r"
| "deriv c (RPlus r) = RSeq (deriv c r) (RStar r)"
| "deriv c (RStar r) = RSeq (deriv c r) (RStar r)"
| "deriv c (RSeq r s) =
     (if nullable r then RAlt (RSeq (deriv c r) s) (deriv c s) else RSeq (deriv c r) s)"
| "deriv c (RAlt r s) = RAlt (deriv c r) (deriv c s)"

fun regex_test :: "regex \<Rightarrow> jsstring \<Rightarrow> bool" where
  "regex_test r [] = nullable r"
| "regex_test r (c # cs) = regex_test (deriv c r) cs"

text \<open>The pattern of \<open>recordPlayCall\<close>: \<open>/^-?\d+$/\<close>; \<open>0x2D\<close> is the minus sign.\<close>

definition yards_pattern :: regex where
  "yards_pattern = RSeq (ROpt (RChar 0x2D)) (RPlus RDigit)"

section \<open>Numbers\<close>

text \<open>
  \<open>Number(raw)\<close> is applied only to strings that passed \<open>yards_pattern\<close>: an optional
  minus sign and decimal digits (leading zeros allowed, no octal reading). The value is
  kept as an unbounded integer. The double that JavaScript computes equals it whenever it
  lies in \<open>[-99, 99]\<close>, and is outside that interval (possibly \<open>Infinity\<close>, which
  \<open>Number.isFinite\<close> rejects with the same message) whenever the integer is; \<open>-0\<close> is
  sent to the backend as \<open>0\<close>.
\<close>

definition digit_value :: "jschar \<Rightarrow> nat" where
  "digit_value c = unat c - 48"

definition decimal_value :: "jsstring \<Rightarrow> nat" where
  "decimal_value ds = foldl (\<lambda>a c. 10 * a + digit_value c) 0 ds"

fun Number_of :: "jsstring \<Rightarrow> int" where
  "Number_of [] = 0"
| "Number_of (c # cs) =
     (if c = 0x2D then - int (decimal_value cs) else int (decimal_value (c # cs)))"

section \<open>Rows, component state and the backend\<close>

text \<open>Rows as the queries of the component select them.\<close>

record play =
  p_id :: jsstring
  p_name :: jsstring
  p_icon :: jsstring

record game =
  g_id :: jsstring
  g_opponent :: jsstring
  g_date :: jsstring

record recent_call =
  rc_id :: jsstring
  created_at :: jsstring
  yards :: int
  play_name :: jsstring
  rc_icon :: jsstring
  game_id :: jsstring

record dialog =
  dlg_open :: bool
  dlg_play :: "play option"
  dlg_yards :: jsstring

text \<open>
  What the component sends out: requests to the backend client and toast notifications.
  Both are logged in the state, oldest first, so that "no request is issued" is a
  statement about the log.
\<close>

datatype request =
    AuthGetSession
  | AuthSignUp jsstring jsstring
  | AuthSignIn jsstring jsstring
  | AuthSignOut
  | SelectPlays
  | SelectGames
  | SelectRecent jsstring
  | InsertPlay jsstring jsstring
  | DeletePlay jsstring
  | InsertGame jsstring jsstring
  | UpsertProfile jsstring jsstring
  | InsertPlayCall jsstring jsstring int

datatype toast = ToastError jsstring | ToastSuccess jsstring

text \<open>The \<open>useState\<close> cells of \<open>CoachAI\<close>, with the two logs.\<close>

record app =
  session :: "jsstring option"
  loading :: bool
  email :: jsstring
  password :: jsstring
  teamName :: jsstring
  plays :: "play list"
  games :: "game list"
  activeGameId :: "jsstring option"
  newPlayName :: jsstring
  newPlayIcon :: jsstring
  newOpponent :: jsstring
  newDate :: jsstring
  yardageDialog :: dialog
  recentCalls :: "recent_call list"
  requests :: "request list"
  toasts :: "toast list"

text \<open>
  The answers of the backend service during one handler call. A failing call answers
  with the message of its \<open>error\<close> (\<open>Inl\<close> for calls that also return data, \<open>Some\<close>
  for calls that only report an error); \<open>data\<close> may be \<open>null\<close>.
\<close>

record backend =
  be_getSession :: "jsstring option"
  be_signUp :: "jsstring \<Rightarrow> jsstring \<Rightarrow> jsstring + jsstring option"
  be_signIn :: "jsstring \<Rightarrow> jsstring \<Rightarrow> jsstring + jsstring option"
  be_selectPlays :: "jsstring + play list option"
  be_selectGames :: "jsstring + game list option"
  be_selectRecent :: "jsstring \<Rightarrow> jsstring + recent_call list option"
  be_insertPlay :: "jsstring \<Rightarrow> jsstring \<Rightarrow> jsstring option"
  be_deletePlay :: "jsstring \<Rightarrow> jsstring option"
  be_insertGame :: "jsstring \<Rightarrow> jsstring \<Rightarrow> jsstring + jsstring option"
  be_upsertProfile :: "jsstring \<Rightarrow> jsstring \<Rightarrow> jsstring option"
  be_insertPlayCall :: "jsstring \<Rightarrow> jsstring \<Rightarrow> int \<Rightarrow> jsstring option"

definition issue :: "request \<Rightarrow> app \<Rightarrow> app" where
  "issue r st = st\<lparr>requests := requests st @ [r]\<rparr>"

definition toast_error :: "jsstring \<Rightarrow> app \<Rightarrow> app" where
  "toast_error m st = st\<lparr>toasts := toasts st @ [ToastError m]\<rparr>"

definition toast_success :: "jsstring \<Rightarrow> app \<Rightarrow> app" where
  "toast_success m st = st\<lparr>toasts := toasts st @ [ToastSuccess m]\<rparr>"

text \<open>\<open>data || []\<close>\<close>

fun or_empty :: "'a list option \<Rightarrow> 'a list" where
  "or_empty None = []"
| "or_empty (Some xs) = xs"

definition closed_dialog :: dialog where
  "closed_dialog = \<lparr>dlg_open = False, dlg_play = None, dlg_yards = ustr ''0''\<rparr>"

section \<open>The handlers of \<open>CoachAI\<close>\<close>

text \<open>
  A handler reads the state of the render that created it and writes through the
  setters. The refresh functions read \<open>activeGameId\<close> from that render, so they take it
  as the argument \<open>agid\<close>; every other read of a handler happens before its first write.
\<close>

definition refreshPlays :: "backend \<Rightarrow> app \<Rightarrow> app" where
  "refreshPlays be st =
     (let st1 = issue SelectPlays st in
      case be_selectPlays be of
        Inl msg \<Rightarrow> toast_error msg st1
      | Inr data \<Rightarrow> st1\<lparr>plays := or_empty data\<rparr>)"

definition refreshGames :: "backend \<Rightarrow> jsstring option \<Rightarrow> app \<Rightarrow> app" where
  "refreshGames be agid st =
     (let st1 = issue SelectGames st in
      case be_selectGames be of
        Inl msg \<Rightarrow> toast_error msg st1
      | Inr data \<Rightarrow>
          (let st2 = st1\<lparr>games := or_empty data\<rparr> in
           case data of
             Some (g # gs) \<Rightarrow>
               if \<not> truthy agid then st2\<lparr>activeGameId := Some (g_id g)\<rparr> else st2
           | _ \<Rightarrow> st2))"

definition refreshRecent :: "backend \<Rightarrow> jsstring option \<Rightarrow> app \<Rightarrow> app" where
  "refreshRecent be agid st =
     (case agid of
        None \<Rightarrow> st
      | Some gid \<Rightarrow>
          if gid = [] then st
          else
            (let st1 = issue (SelectRecent gid) st in
             case be_selectRecent be gid of
               Inl msg \<Rightarrow> st1
             | Inr data \<Rightarrow> st1\<lparr>recentCalls := or_empty data\<rparr>))"

definition signUp :: "backend \<Rightarrow> app \<Rightarrow> app" where
  "signUp be st =
     (if email st = [] \<or> password st = [] \<or> teamName st = [] then
        toast_error (ustr ''Email, password, and team name are required'') st
      else
        (let st1 = issue (AuthSignUp (email st) (password st)) st in
         case be_signUp be (email st) (password st) of
           Inl msg \<Rightarrow> toast_error msg st1
         | Inr (Some user) \<Rightarrow> toast_success (ustr ''Sign-up successful. Now log in.'') st1
         | Inr None \<Rightarrow>
             toast_success (ustr ''Check your inbox to confirm, then log in.'') st1))"

definition signIn :: "backend \<Rightarrow> app \<Rightarrow> app" where
  "signIn be st =
     (let st1 = issue (AuthSignIn (email st) (password st)) st in
      case be_signIn be (email st) (password st) of
        Inl msg \<Rightarrow> toast_error msg st1
      | Inr user \<Rightarrow>
          (let st2 = toast_success (ustr ''Welcome back!'') st1 in
           case user of
             None \<Rightarrow> st2
           | Some uid \<Rightarrow>
               (let tn = (if teamName st = [] then ustr ''My Team'' else teamName st);
                    st3 = issue (UpsertProfile uid tn) st2;
                    st4 = (case be_upsertProfile be uid tn of
                             Some msg \<Rightarrow> toast_error (ustr ''Profile save issue: '' @ msg) st3
                           | None \<Rightarrow> st3)
                in refreshGames be (activeGameId st) (refreshPlays be st4))))"

definition signOut :: "backend \<Rightarrow> app \<Rightarrow> app" where
  "signOut be st =
     (issue AuthSignOut st)
       \<lparr>plays := [], games := [], activeGameId := None, recentCalls := []\<rparr>"

definition addPlay :: "backend \<Rightarrow> app \<Rightarrow> app" where
  "addPlay be st =
     (if trim (newPlayName st) = [] then toast_error (ustr ''Play name required'') st
      else
        (let st1 = issue (InsertPlay (trim (newPlayName st)) (newPlayIcon st)) st in
         case be_insertPlay be (trim (newPlayName st)) (newPlayIcon st) of
           Some msg \<Rightarrow> toast_error msg st1
         | None \<Rightarrow>
             refreshPlays be (toast_success (ustr ''Play added'') (st1\<lparr>newPlayName := []\<rparr>))))"

text \<open>\<open>confirmed\<close> is the answer of the user to the \<open>confirm\<close> prompt.\<close>

definition deletePlay :: "backend \<Rightarrow> bool \<Rightarrow> jsstring \<Rightarrow> app \<Rightarrow> app" where
  "deletePlay be confirmed pid st =
     (if \<not> confirmed then st
      else
        (let st1 = issue (DeletePlay pid) st in
         case be_deletePlay be pid of
           Some msg \<Rightarrow> toast_error msg st1
         | None \<Rightarrow>
             refreshRecent be (activeGameId st)
               (refreshPlays be (toast_success (ustr ''Play deleted'') st1))))"

definition addGame :: "backend \<Rightarrow> app \<Rightarrow> app" where
  "addGame be st =
     (if trim (newOpponent st) = [] then toast_error (ustr ''Opponent required'') st
      else
        (let st1 = issue (InsertGame (trim (newOpponent st)) (newDate st)) st in
         case be_insertGame be (trim (newOpponent st)) (newDate st) of
           Inl msg \<Rightarrow> toast_error msg st1
         | Inr data_id \<Rightarrow>
             (let st2 = refreshGames be (activeGameId st)
                          (toast_success (ustr ''Game created'') (st1\<lparr>newOpponent := []\<rparr>))
              in if truthy data_id then st2\<lparr>activeGameId := data_id\<rparr> else st2)))"

definition recordPlayCall :: "backend \<Rightarrow> app \<Rightarrow> app" where
  "recordPlayCall be st =
     (case dlg_play (yardageDialog st) of
        None \<Rightarrow> toast_error (ustr ''No play selected.'') st
      | Some pl \<Rightarrow>
          (case activeGameId st of
             None \<Rightarrow> toast_error (ustr ''Pick or create a game first.'') st
           | Some gid \<Rightarrow>
               if gid = [] then toast_error (ustr ''Pick or create a game first.'') st
               else
                 (let raw = trim (dlg_yards (yardageDialog st)) in
                  if \<not> regex_test yards_pattern raw then
                    toast_error (ustr ''Enter a whole number (no decimals).'') st
                  else
                    (let y = Number_of raw in
                     if y < - 99 \<or> y > 99 then
                       toast_error (ustr ''Yards must be between -99 and 99'') st
                     else
                       (let st1 = issue (InsertPlayCall (p_id pl) gid y) st in
                        case be_insertPlayCall be (p_id pl) gid y of
                          Some msg \<Rightarrow> toast_error msg st1
                        | None \<Rightarrow>
                            refreshRecent be (activeGameId st)
                              (toast_success (ustr ''Play saved'')
                                 st1\<lparr>yardageDialog := closed_dialog\<rparr>))))))"

section \<open>The statistics of the recent calls\<close>

text \<open>
  A JavaScript \<open>Map\<close> enumerates its entries in the order in which the keys were first
  inserted; \<open>set\<close> on a key that is present replaces the value in place. It is modelled
  as an association list in insertion order. String keys are compared by content.
\<close>

type_synonym ('k, 'v) jsmap = "('k \<times> 'v) list"

fun map_has :: "('k, 'v) jsmap \<Rightarrow> 'k \<Rightarrow> bool" where
  "map_has [] k = False"
| "map_has ((k', v') # m) k = (k' = k \<or> map_has m k)"

fun map_get :: "('k, 'v) jsmap \<Rightarrow> 'k \<Rightarrow> 'v option" where
  "map_get [] k = None"
| "map_get ((k', v') # m) k = (if k' = k then Some v' else map_get m k)"

fun map_set :: "('k, 'v) jsmap \<Rightarrow> 'k \<Rightarrow> 'v \<Rightarrow> ('k, 'v) jsmap" where
  "map_set [] k v = [(k, v)]"
| "map_set ((k', v') # m) k v =
     (if k' = k then (k, v) # m else (k', v') # map_set m k v)"

text \<open>
  The value objects \<open>{ count, sum }\<close> of the map. The loop updates the object that the
  map holds (\<open>v.count += 1\<close> on the result of \<open>m.get(k)\<close>), which the model writes as
  storing the updated object under the same key.
\<close>

record tally =
  v_count :: nat
  v_sum :: int

datatype fault = TypeError

text \<open>
  One iteration of \<open>for (const r of recentCalls)\<close>. Reading a field of \<open>undefined\<close>
  (a key missing at \<open>m.get(k)!\<close>) would throw a \<open>TypeError\<close>.
\<close>

definition tally_call :: "recent_call \<Rightarrow> (jsstring, tally) jsmap \<Rightarrow> fault + (jsstring, tally) jsmap" where
  "tally_call r m =
     (let k = play_name r;
          m1 = (if \<not> map_has m k then map_set m k \<lparr>v_count = 0, v_sum = 0\<rparr> else m)
      in case map_get m1 k of
           None \<Rightarrow> Inl TypeError
         | Some v \<Rightarrow> Inr (map_set m1 k (v\<lparr>v_count := v_count v + 1, v_sum := v_sum v + yards r\<rparr>)))"

fun tally_calls :: "recent_call list \<Rightarrow> (jsstring, tally) jsmap \<Rightarrow> fault + (jsstring, tally) jsmap" where
  "tally_calls [] m = Inr m"
| "tally_calls (r # rs) m =
     (case tally_call r m of Inl e \<Rightarrow> Inl e | Inr m' \<Rightarrow> tally_calls rs m')"

text \<open>
  Numbers are IEEE 754 doubles. The counts and sums of the loop are integers, which the
  additions keep exact below \<open>2^53\<close>; they are modelled as \<open>nat\<close> and \<open>int\<close>.
  \<open>v.sum / v.count\<close> is the double nearest to the quotient (ties to the even
  significand), or \<open>NaN\<close> or an infinity when the divisor is zero. A finite double is
  kept as the rational number it denotes.
\<close>

datatype jsnum = Finite rat | NaN | PosInfinity | NegInfinity

definition pow2 :: "int \<Rightarrow> rat" where
  "pow2 i = (if 0 \<le> i then 2 ^ nat i else 1 / 2 ^ nat (- i))"

text \<open>The binary exponent of \<open>p / q\<close> for positive \<open>p\<close> and \<open>q\<close>: \<open>2^e \<le> p / q < 2^(e+1)\<close>.\<close>

definition quotient_exponent :: "int \<Rightarrow> int \<Rightarrow> int" where
  "quotient_exponent p q =
     (let d = bitlen p - bitlen q in if pow2 d \<le> of_int p / of_int q then d else d - 1)"

definition round_half_even :: "rat \<Rightarrow> int" where
  "round_half_even y =
     (let f = \<lfloor>y\<rfloor>; r = y - of_int f in
      if r < 1 / 2 then f else if 1 / 2 < r then f + 1 else if even f then f else f + 1)"

text \<open>
  Division of the integer \<open>s\<close> by the count \<open>c\<close> in binary64: 53 bits of significand,
  exponents from -1022 (below which the spacing stays \<open>2^(-1074)\<close>), overflow to
  an infinity from \<open>2^1024\<close> on.
\<close>

definition js_divide :: "int \<Rightarrow> nat \<Rightarrow> jsnum" where
  "js_divide s c =
     (if c = 0 then (if s = 0 then NaN else if 0 < s then PosInfinity else NegInfinity)
      else if s = 0 then Finite 0
      else
        (let e = max (quotient_exponent \<bar>s\<bar> (int c)) (- 1022);
             ulp = pow2 (e - 52);
             v = of_int (round_half_even (of_int \<bar>s\<bar> / of_nat c / ulp)) * ulp
         in if pow2 1024 \<le> v then (if s < 0 then NegInfinity else PosInfinity)
            else Finite (if s < 0 then - v else v)))"

text \<open>The decimal representation of a natural number, without leading zeros.\<close>

definition digit_char :: "nat \<Rightarrow> jschar" where
  "digit_char d = of_nat (48 + d)"

fun digits :: "nat \<Rightarrow> jsstring" where
  "digits n = (if n < 10 then [digit_char n] else digits (n div 10) @ [digit_char (n mod 10)])"

text \<open>
  \<open>Number.prototype.toFixed\<close> with one fraction digit, after ECMAScript: a value that
  is not finite is printed by name; otherwise the sign is split off, \<open>n\<close> is an integer
  for which \<open>n / 10 - x\<close> is as close to zero as possible (the larger one if there are
  two), its digits are padded with zeros to at least two, and a point is put before the
  last digit. From \<open>10^21\<close> on the result is that of \<open>Number::toString\<close>, in
  exponent notation; that printer is the parameter \<open>large\<close>.
\<close>

definition nearest_tenths :: "rat \<Rightarrow> nat" where
  "nearest_tenths x =
     (let n0 = \<lfloor>x * 10\<rfloor> in
      nat (if of_int (n0 + 1) / 10 - x \<le> x - of_int n0 / 10 then n0 + 1 else n0))"

fun toFixed1 :: "(rat \<Rightarrow> jsstring) \<Rightarrow> jsnum \<Rightarrow> jsstring" where
  "toFixed1 large NaN = ustr ''NaN''"
| "toFixed1 large PosInfinity = ustr ''Infinity''"
| "toFixed1 large NegInfinity = ustr ''-Infinity''"
| "toFixed1 large (Finite x0) =
     (let s = (if x0 < 0 then ustr ''-'' else []);
          x = (if x0 < 0 then - x0 else x0)
      in if 10 ^ 21 \<le> x then s @ large x
         else
           (let n = nearest_tenths x;
                m = (if n = 0 then ustr ''0'' else digits n);
                m' = (if length m \<le> 1 then replicate (2 - length m) (digit_char 0) @ m else m);
                k = length m';
                a = take (k - 1) m';
                b = drop (k - 1) m'
            in s @ a @ ustr ''.'' @ b))"

record stat =
  name :: jsstring
  count :: nat
  avg :: jsstring

text \<open>\<open>Array.from(m.entries()).map(([name, v]) => ...)\<close>\<close>

definition stat_entry :: "(rat \<Rightarrow> jsstring) \<Rightarrow> jsstring \<times> tally \<Rightarrow> stat" where
  "stat_entry large e =
     (case e of (k, v) \<Rightarrow>
        \<lparr>name = k, count = v_count v, avg = toFixed1 large (js_divide (v_sum v) (v_count v))\<rparr>)"

definition perPlayStats :: "(rat \<Rightarrow> jsstring) \<Rightarrow> recent_call list \<Rightarrow> fault + stat list" where
  "perPlayStats large calls =
     (case tally_calls calls [] of
        Inl e \<Rightarrow> Inl e
      | Inr m \<Rightarrow> Inr (map (stat_entry large) m))"

section \<open>The component\<close>

text \<open>
  The two connection parameters are read from the environment at build time and may be
  \<open>undefined\<close>. The client is created only when both are truthy.
\<close>

record env =
  SUPABASE_URL :: "jsstring option"
  SUPABASE_ANON_KEY :: "jsstring option"

datatype client = Client jsstring jsstring

definition supabase :: "env \<Rightarrow> client option" where
  "supabase e =
     (case (SUPABASE_URL e, SUPABASE_ANON_KEY e) of
        (Some url, Some key) \<Rightarrow> if url = [] \<or> key = [] then None else Some (Client url key)
      | _ \<Rightarrow> None)"

datatype screen = ConfigScreen | LoadingScreen | LoginScreen | MainScreen

text \<open>What \<open>CoachAI\<close> returns: the static card, the loading line, the login card or the app.\<close>

definition CoachAI :: "env \<Rightarrow> app \<Rightarrow> screen" where
  "CoachAI e st =
     (if supabase e = None then ConfigScreen
      else if loading st then LoadingScreen
      else if session st = None then LoginScreen
      else MainScreen)"

text \<open>The two effects: loading the session on mount, loading the data when logged in.\<close>

definition loadSession :: "backend \<Rightarrow> app \<Rightarrow> app" where
  "loadSession be st = (issue AuthGetSession st)\<lparr>session := be_getSession be, loading := False\<rparr>"

definition loadData :: "backend \<Rightarrow> app \<Rightarrow> app" where
  "loadData be st =
     (if session st = None then st
      else refreshRecent be (activeGameId st)
             (refreshGames be (activeGameId st) (refreshPlays be st)))"

text \<open>
  What can happen to a mounted component: its effects run, the auth service reports a
  session change, or the user acts on a control. \<open>ClickDeletePlay\<close> carries the answer
  to the confirmation prompt.
\<close>

datatype event =
    SessionEffect
  | DataEffect
  | AuthStateChange "jsstring option"
  | TypeEmail jsstring
  | TypePassword jsstring
  | TypeTeamName jsstring
  | ClickSignUp
  | ClickSignIn
  | ClickSignOut
  | TypePlayName jsstring
  | PickPlayIcon jsstring
  | ClickAddPlay
  | ClickPlay play
  | TypeOpponent jsstring
  | TypeDate jsstring
  | ClickCreateGame
  | ClickGame jsstring
  | DialogOpenChange bool
  | TypeYards jsstring
  | ClickDeletePlay bool
  | ClickCancel
  | ClickSave

fun handle :: "backend \<Rightarrow> event \<Rightarrow> app \<Rightarrow> app" where
  "handle be SessionEffect st = loadSession be st"
| "handle be DataEffect st = loadData be st"
| "handle be (AuthStateChange s) st = st\<lparr>session := s\<rparr>"
| "handle be (TypeEmail s) st = st\<lparr>email := s\<rparr>"
| "handle be (TypePassword s) st = st\<lparr>password := s\<rparr>"
| "handle be (TypeTeamName s) st = st\<lparr>teamName := s\<rparr>"
| "handle be ClickSignUp st = signUp be st"
| "handle be ClickSignIn st = signIn be st"
| "handle be ClickSignOut st = signOut be st"
| "handle be (TypePlayName s) st = st\<lparr>newPlayName := s\<rparr>"
| "handle be (PickPlayIcon s) st = st\<lparr>newPlayIcon := s\<rparr>"
| "handle be ClickAddPlay st = addPlay be st"
| "handle be (ClickPlay pl) st =
     st\<lparr>yardageDialog := \<lparr>dlg_open = True, dlg_play = Some pl, dlg_yards = ustr ''0''\<rparr>\<rparr>"
| "handle be (TypeOpponent s) st = st\<lparr>newOpponent := s\<rparr>"
| "handle be (TypeDate s) st = st\<lparr>newDate := s\<rparr>"
| "handle be ClickCreateGame st = addGame be st"
| "handle be (ClickGame gid) st = st\<lparr>activeGameId := Some gid\<rparr>"
| "handle be (DialogOpenChange b) st = st\<lparr>yardageDialog := (yardageDialog st)\<lparr>dlg_open := b\<rparr>\<rparr>"
| "handle be (TypeYards s) st = st\<lparr>yardageDialog := (yardageDialog st)\<lparr>dlg_yards := s\<rparr>\<rparr>"
| "handle be (ClickDeletePlay confirmed) st =
     (case dlg_play (yardageDialog st) of
        None \<Rightarrow> st
      | Some pl \<Rightarrow> deletePlay be confirmed (p_id pl) st)"
| "handle be ClickCancel st = st\<lparr>yardageDialog := closed_dialog\<rparr>"
| "handle be ClickSave st = recordPlayCall be st"

text \<open>
  The controls each screen offers. The static card and the loading line offer none; the
  effects and the auth subscription exist once the hooks have been registered, which
  happens only past the early return for a missing client.
\<close>

fun offers :: "screen \<Rightarrow> event \<Rightarrow> bool" where
  "offers ConfigScreen ev = False"
| "offers scr SessionEffect = True"
| "offers scr DataEffect = True"
| "offers scr (AuthStateChange s) = True"
| "offers LoadingScreen ev = False"
| "offers LoginScreen (TypeEmail s) = True"
| "offers LoginScreen (TypePassword s) = True"
| "offers LoginScreen (TypeTeamName s) = True"
| "offers LoginScreen ClickSignUp = True"
| "offers LoginScreen ClickSignIn = True"
| "offers LoginScreen ev = False"
| "offers MainScreen (TypeEmail s) = False"
| "offers MainScreen (TypePassword s) = False"
| "offers MainScreen (TypeTeamName s) = False"
| "offers MainScreen ClickSignUp = False"
| "offers MainScreen ClickSignIn = False"
| "offers MainScreen ev = True"

definition step :: "env \<Rightarrow> backend \<Rightarrow> event \<Rightarrow> app \<Rightarrow> app" where
  "step e be ev st = (if offers (CoachAI e st) ev then handle be ev st else st)"

fun run :: "env \<Rightarrow> (backend \<times> event) list \<Rightarrow> app \<Rightarrow> app" where
  "run e [] st = st"
| "run e ((be, ev) # evs) st = run e evs (step e be ev st)"

section \<open>The specification's wording\<close>

text \<open>
  The acceptance condition of a yardage input as the specification words it: an optional
  leading minus sign followed by one or more digits, denoting an integer between -99
  and 99.
\<close>

fun whole_number :: "jsstring \<Rightarrow> bool" where
  "whole_number [] = False"
| "whole_number (c # cs) =
     (if c = 0x2D then cs \<noteq> [] \<and> list_all isDigit cs else list_all isDigit (c # cs))"

definition valid_yards :: "jsstring \<Rightarrow> bool" where
  "valid_yards raw \<longleftrightarrow> whole_number raw \<and> - 99 \<le> Number_of raw \<and> Number_of raw \<le> 99"

text \<open>
  The aggregation as the specification words it: one entry per distinct play name, in
  the order of the first occurrences; the count is the number of calls with that name,
  and the average is the sum of their yards over the count, written with one decimal
  place and rounded to the nearest tenth (halves away from zero).
\<close>

fun first_occurrences :: "'a list \<Rightarrow> 'a list" where
  "first_occurrences [] = []"
| "first_occurrences (x # xs) = x # filter (\<lambda>y. y \<noteq> x) (first_occurrences xs)"

definition calls_named :: "jsstring \<Rightarrow> recent_call list \<Rightarrow> recent_call list" where
  "calls_named k calls = filter (\<lambda>r. play_name r = k) calls"

definition yards_total :: "jsstring \<Rightarrow> recent_call list \<Rightarrow> int" where
  "yards_total k calls = sum_list (map yards (calls_named k calls))"

text \<open>The count and the sum of the yards of the calls named \<open>k\<close>, as a map value.\<close>

definition tally_of :: "recent_call list \<Rightarrow> jsstring \<Rightarrow> tally" where
  "tally_of calls k = \<lparr>v_count = length (calls_named k calls), v_sum = yards_total k calls\<rparr>"

definition one_decimal :: "rat \<Rightarrow> jsstring" where
  "one_decimal q =
     (let t = nat (round (10 * \<bar>q\<bar>)) in
      (if q < 0 then ustr ''-'' else []) @ digits (t div 10) @ ustr ''.'' @ [digit_char (t mod 10)])"

definition expected_stat :: "recent_call list \<Rightarrow> jsstring \<Rightarrow> stat" where
  "expected_stat calls k =
     \<lparr>name = k,
      count = length (calls_named k calls),
      avg = one_decimal (of_int (yards_total k calls) / of_nat (length (calls_named k calls)))\<rparr>"

definition expected_stats :: "recent_call list \<Rightarrow> stat list" where
  "expected_stats calls = map (expected_stat calls) (first_occurrences (map play_name calls))"

section \<open>Sample data\<close>

text \<open>
  The first render's state (the initial values of the \<open>useState\<close> cells; \<open>today\<close> is
  the formatted current date), a backend that is unreachable, and a backend that accepts
  everything and holds no rows.
\<close>

definition initial_app :: "jsstring \<Rightarrow> app" where
  "initial_app today =
     \<lparr>session = None, loading = True, email = [], password = [], teamName = [],
      plays = [], games = [], activeGameId = None,
      newPlayName = [], newPlayIcon = ustr ''inside-run'', newOpponent = [],
      newDate = today, yardageDialog = closed_dialog, recentCalls = [],
      requests = [], toasts = []\<rparr>"

definition offline :: backend where
  "offline =
     \<lparr>be_getSession = None,
      be_signUp = (\<lambda>e p. Inl (ustr ''Failed to fetch'')),
      be_signIn = (\<lambda>e p. Inl (ustr ''Failed to fetch'')),
      be_selectPlays = Inl (ustr ''Failed to fetch''),
      be_selectGames = Inl (ustr ''Failed to fetch''),
      be_selectRecent = (\<lambda>g. Inl (ustr ''Failed to fetch'')),
      be_insertPlay = (\<lambda>n i. Some (ustr ''Failed to fetch'')),
      be_deletePlay = (\<lambda>i. Some (ustr ''Failed to fetch'')),
      be_insertGame = (\<lambda>opp d. Inl (ustr ''Failed to fetch'')),
      be_upsertProfile = (\<lambda>u t. Some (ustr ''Failed to fetch'')),
      be_insertPlayCall = (\<lambda>p g y. Some (ustr ''Failed to fetch''))\<rparr>"

definition accepting :: backend where
  "accepting =
     \<lparr>be_getSession = Some (ustr ''token''),
      be_signUp = (\<lambda>e p. Inr (Some (ustr ''u1''))),
      be_signIn = (\<lambda>e p. Inr (Some (ustr ''u1''))),
      be_selectPlays = Inr (Some []),
      be_selectGames = Inr (Some []),
      be_selectRecent = (\<lambda>g. Inr (Some [])),
      be_insertPlay = (\<lambda>n i. None),
      be_deletePlay = (\<lambda>i. None),
      be_insertGame = (\<lambda>opp d. Inr (Some (ustr ''g2''))),
      be_upsertProfile = (\<lambda>u t. None),
      be_insertPlayCall = (\<lambda>p g y. None)\<rparr>"

definition call :: "string \<Rightarrow> int \<Rightarrow> recent_call" where
  "call nm y =
     \<lparr>rc_id = [], created_at = [], yards = y, play_name = ustr nm, rc_icon = [],
      game_id = ustr ''g1''\<rparr>"

text \<open>The yardage dialog open on a play of game \<open>g1\<close>, with \<open>s\<close> typed into it.\<close>

definition recording :: "string \<Rightarrow> app" where
  "recording s =
     (initial_app [])
       \<lparr>activeGameId := Some (ustr ''g1''),
        yardageDialog :=
          \<lparr>dlg_open = True,
           dlg_play = Some \<lparr>p_id = ustr ''p1'', p_name = ustr ''Iso'', p_icon = ustr ''inside-run''\<rparr>,
           dlg_yards = ustr s\<rparr>\<rparr>"

text \<open>States in which the forms have been filled in, and further backends and environments.\<close>

definition naming :: "string \<Rightarrow> app" where
  "naming s = (initial_app [])\<lparr>session := Some (ustr ''token''), loading := False, newPlayName := ustr s\<rparr>"

definition registering :: "string \<Rightarrow> app" where
  "registering team =
     (initial_app [])
       \<lparr>loading := False, email := ustr ''coach@team.com'', password := ustr ''secret'',
        teamName := ustr team\<rparr>"

definition scheduling :: "jsstring option \<Rightarrow> app" where
  "scheduling active =
     (initial_app (ustr ''2025-09-01''))
       \<lparr>session := Some (ustr ''token''), loading := False, activeGameId := active,
        newOpponent := ustr '' Lions ''\<rparr>"

definition with_games :: backend where
  "with_games =
     accepting
       \<lparr>be_selectGames :=
          Inr (Some [\<lparr>g_id = ustr ''g9'', g_opponent = ustr ''Bears'', g_date = ustr ''2025-12-24''\<rparr>,
                     \<lparr>g_id = ustr ''g2'', g_opponent = ustr ''Lions'', g_date = ustr ''2025-09-01''\<rparr>])\<rparr>"

definition no_env :: env where
  "no_env = \<lparr>SUPABASE_URL = Some (ustr ''https://x.supabase.co''), SUPABASE_ANON_KEY = None\<rparr>"

text \<open>The example of the specification: two calls of Iso and one of Sweep.\<close>

definition example_calls :: "recent_call list" where
  "example_calls = [call ''Iso'' 4, call ''Iso'' 6, call ''Sweep'' (- 2)]"

text \<open>Twenty calls of one play that gain seven yards in all.\<close>

definition twenty_calls :: "recent_call list" where
  "twenty_calls = replicate 7 (call ''Dive'' 1) @ replicate 13 (call ''Dive'' 0)"

text \<open>A logged-in state with a play, a game, an active game and a recent call.\<close>

definition populated :: app where
  "populated =
     (initial_app [])
       \<lparr>session := Some (ustr ''token''), loading := False,
        plays := [\<lparr>p_id = ustr ''p1'', p_name = ustr ''Iso'', p_icon = ustr ''inside-run''\<rparr>],
        games := [\<lparr>g_id = ustr ''g1'', g_opponent = ustr ''Bears'', g_date = ustr ''2025-09-01''\<rparr>],
        activeGameId := Some (ustr ''g1''),
        recentCalls := [call ''Iso'' 4]\<rparr>"

section \<open>Frame lemmas of the refresh functions\<close>

lemma requests_toast_error [simp]: "requests (toast_error m st) = requests st"
  by (simp add: toast_error_def)

lemma requests_toast_success [simp]: "requests (toast_success m st) = requests st"
  by (simp add: toast_success_def)

lemma requests_issue [simp]: "requests (issue r st) = requests st @ [r]"
  by (simp add: issue_def)

lemma requests_refreshPlays [simp]:
  "requests (refreshPlays be st) = requests st @ [SelectPlays]"
  by (simp add: refreshPlays_def Let_def split: sum.splits)

lemma requests_refreshGames [simp]:
  "requests (refreshGames be agid st) = requests st @ [SelectGames]"
  by (simp add: refreshGames_def Let_def split: sum.splits option.splits list.splits)

lemma requests_refreshRecent:
  "requests (refreshRecent be agid st) =
     requests st @ (if truthy agid then [SelectRecent (the agid)] else [])"
  by (cases agid) (simp_all add: refreshRecent_def Let_def split: sum.splits)

lemma activeGameId_toast_error [simp]: "activeGameId (toast_error m st) = activeGameId st"
  by (simp add: toast_error_def)

lemma activeGameId_toast_success [simp]: "activeGameId (toast_success m st) = activeGameId st"
  by (simp add: toast_success_def)

lemma activeGameId_issue [simp]: "activeGameId (issue r st) = activeGameId st"
  by (simp add: issue_def)

lemma activeGameId_refreshPlays [simp]: "activeGameId (refreshPlays be st) = activeGameId st"
  by (simp add: refreshPlays_def Let_def split: sum.splits)

lemma activeGameId_refreshRecent [simp]:
  "activeGameId (refreshRecent be agid st) = activeGameId st"
  by (simp add: refreshRecent_def Let_def split: sum.splits option.splits)

text \<open>With an active game in the render, refreshing the games keeps the selection.\<close>

lemma activeGameId_refreshGames_truthy:
  "truthy agid \<Longrightarrow> activeGameId (refreshGames be agid st) = activeGameId st"
  by (simp add: refreshGames_def Let_def split: sum.splits option.splits list.splits)

section \<open>Refreshing the recent calls without an active game\<close>

text \<open>
  C10. When no active game is selected (\<open>activeGameId\<close> is \<open>null\<close>, or falsy), a
  refresh of the recent calls does nothing: the state after it is the state before it,
  so no query is added to the request log and the recent-calls list keeps its entries.
\<close>

theorem refreshRecent_without_active_game:
  assumes "\<not> truthy agid"
  shows "refreshRecent be agid st = st \<and>
         requests (refreshRecent be agid st) = requests st \<and>
         recentCalls (refreshRecent be agid st) = recentCalls st"
  using assms by (cases agid) (simp_all add: refreshRecent_def)

theorem refreshRecent_without_active_game_witness:
  "\<not> truthy None \<and>
   recentCalls (refreshRecent accepting None
     ((initial_app [])\<lparr>recentCalls := [call ''Iso'' 4]\<rparr>)) = [call ''Iso'' 4] \<and>
   requests (refreshRecent accepting None
     ((initial_app [])\<lparr>recentCalls := [call ''Iso'' 4]\<rparr>)) = []"
  using refreshRecent_without_active_game
    [of None accepting "(initial_app [])\<lparr>recentCalls := [call ''Iso'' 4]\<rparr>"]
  by (simp add: initial_app_def)

section \<open>Deleting a play\<close>

text \<open>
  C5. \<open>deletePlay\<close> asks for confirmation first. For every play id, when the
  confirmation is withheld the state after the call is the state before it: no delete
  request (no request at all) is issued and the plays list and every other cell are
  unchanged. When it is given, the delete request for that id is the next request issued.
\<close>

theorem deletePlay_requires_confirmation:
  "(\<not> confirmed \<longrightarrow> deletePlay be confirmed pid st = st) \<and>
   (confirmed \<longrightarrow>
      take (Suc (length (requests st))) (requests (deletePlay be confirmed pid st))
        = requests st @ [DeletePlay pid])"
  by (simp add: deletePlay_def Let_def requests_refreshRecent split: option.splits)

theorem deletePlay_requires_confirmation_witness:
  "deletePlay accepting False (ustr ''p1'') (initial_app []) = initial_app [] \<and>
   take (Suc 0) (requests (deletePlay accepting True (ustr ''p1'') (initial_app [])))
     = [DeletePlay (ustr ''p1'')]"
  using deletePlay_requires_confirmation [of False accepting "ustr ''p1''" "initial_app []"]
    deletePlay_requires_confirmation [of True accepting "ustr ''p1''" "initial_app []"]
  by (simp add: initial_app_def)

section \<open>Signing out\<close>

text \<open>
  C3. Whatever the state before and whatever the auth service answers, \<open>signOut\<close>
  leaves the plays list empty, the games list empty, no active game selected and the
  recent-calls list empty.
\<close>

theorem signOut_clears_collections:
  "plays (signOut be st) = [] \<and> games (signOut be st) = [] \<and>
   activeGameId (signOut be st) = None \<and> recentCalls (signOut be st) = []"
  by (simp add: signOut_def issue_def)

theorem signOut_clears_collections_witness:
  "plays populated \<noteq> [] \<and> games populated \<noteq> [] \<and>
   activeGameId populated = Some (ustr ''g1'') \<and> recentCalls populated \<noteq> [] \<and>
   plays (signOut offline populated) = [] \<and> games (signOut offline populated) = [] \<and>
   activeGameId (signOut offline populated) = None \<and>
   recentCalls (signOut offline populated) = [] \<and>
   requests (signOut offline populated) = [AuthSignOut]"
  using signOut_clears_collections [of offline populated]
  by (simp add: populated_def initial_app_def signOut_def)

section \<open>Validation of the yardage input\<close>

lemma regex_test_RNever [simp]: "regex_test RNever s = False"
  by (induction s) simp_all

lemma regex_test_RSeq_RNever [simp]: "regex_test (RSeq RNever r) s = False"
  by (induction s) simp_all

lemma regex_test_RAlt [simp]:
  "regex_test (RAlt a b) s = (regex_test a s \<or> regex_test b s)"
  by (induction s arbitrary: a b) simp_all

lemma regex_test_RSeq_REmpty [simp]: "regex_test (RSeq REmpty r) s = regex_test r s"
  by (cases s) simp_all

lemma regex_test_digits: "regex_test (RStar RDigit) s = list_all isDigit s"
  by (induction s) simp_all

lemma regex_test_digits1:
  "regex_test (RPlus RDigit) s = (s \<noteq> [] \<and> list_all isDigit s)"
  by (cases s) (simp_all add: regex_test_digits)

lemma minus_not_digit: "\<not> isDigit 0x2D"
  by (simp add: isDigit_def)

text \<open>The pattern \<open>/^-?\d+$/\<close> accepts exactly the whole numbers of the specification.\<close>

lemma regex_test_yards_pattern: "regex_test yards_pattern s = whole_number s"
  using minus_not_digit
  by (cases s) (auto simp add: yards_pattern_def regex_test_digits1 regex_test_digits)

text \<open>
  Before the yardage is looked at, \<open>recordPlayCall\<close> requires a selected play and an
  active game.
\<close>

lemma recordPlayCall_without_play:
  "dlg_play (yardageDialog st) = None \<Longrightarrow>
   recordPlayCall be st = toast_error (ustr ''No play selected.'') st"
  by (simp add: recordPlayCall_def)

lemma recordPlayCall_without_game:
  "dlg_play (yardageDialog st) = Some pl \<Longrightarrow> \<not> truthy (activeGameId st) \<Longrightarrow>
   recordPlayCall be st = toast_error (ustr ''Pick or create a game first.'') st"
  by (cases "activeGameId st") (simp_all add: recordPlayCall_def)

text \<open>
  C1. With a play selected and a game active, \<open>recordPlayCall\<close> accepts the yardage
  input (issues the insert of a call record) if and only if the trimmed input is an
  optional minus sign followed by one or more digits and denotes an integer in
  \<open>[-99, 99]\<close>; the record it inserts carries that integer. Every other input is
  rejected with a validation message and the state is otherwise unchanged, so no
  request is issued and no record is persisted. In particular \<open>"50"\<close>, \<open>"-99"\<close>
  and \<open>"-0"\<close> (as 0) are accepted and \<open>"100"\<close>, \<open>"3.5"\<close> and \<open>""\<close> are rejected,
  as the instances after the theorem show.
\<close>

theorem recordPlayCall_yardage_validation:
  assumes "dlg_play (yardageDialog st) = Some pl"
    and "activeGameId st = Some gid" and "gid \<noteq> []"
  shows
    "((\<exists>y. InsertPlayCall (p_id pl) gid y
          \<in> set (drop (length (requests st)) (requests (recordPlayCall be st))))
        \<longleftrightarrow> valid_yards (trim (dlg_yards (yardageDialog st)))) \<and>
     (valid_yards (trim (dlg_yards (yardageDialog st))) \<longrightarrow>
        take (Suc (length (requests st))) (requests (recordPlayCall be st))
          = requests st @
              [InsertPlayCall (p_id pl) gid (Number_of (trim (dlg_yards (yardageDialog st))))]) \<and>
     (\<not> whole_number (trim (dlg_yards (yardageDialog st))) \<longrightarrow>
        recordPlayCall be st
          = toast_error (ustr ''Enter a whole number (no decimals).'') st) \<and>
     (whole_number (trim (dlg_yards (yardageDialog st))) \<and>
      \<not> valid_yards (trim (dlg_yards (yardageDialog st))) \<longrightarrow>
        recordPlayCall be st = toast_error (ustr ''Yards must be between -99 and 99'') st) \<and>
     (\<not> valid_yards (trim (dlg_yards (yardageDialog st))) \<longrightarrow>
        requests (recordPlayCall be st) = requests st)"
proof (cases "valid_yards (trim (dlg_yards (yardageDialog st)))")
  case True
  let ?y = "Number_of (trim (dlg_yards (yardageDialog st)))"
  from True assms have "requests (recordPlayCall be st) =
      requests st @ InsertPlayCall (p_id pl) gid ?y
        # (case be_insertPlayCall be (p_id pl) gid ?y of
             None \<Rightarrow> [SelectRecent gid] | Some m \<Rightarrow> [])"
    by (simp add: recordPlayCall_def valid_yards_def regex_test_yards_pattern Let_def
        requests_refreshRecent split: option.splits)
  with True show ?thesis by (auto simp add: valid_yards_def)
next
  case False
  from False assms have
    "\<not> whole_number (trim (dlg_yards (yardageDialog st))) \<Longrightarrow>
       recordPlayCall be st = toast_error (ustr ''Enter a whole number (no decimals).'') st"
    and "whole_number (trim (dlg_yards (yardageDialog st))) \<Longrightarrow>
       recordPlayCall be st = toast_error (ustr ''Yards must be between -99 and 99'') st"
    by (auto simp add: recordPlayCall_def valid_yards_def regex_test_yards_pattern Let_def)
  with False show ?thesis by (cases "whole_number (trim (dlg_yards (yardageDialog st)))") auto
qed

lemmas recording_simps =
  recording_def initial_app_def closed_dialog_def accepting_def ustr_def trim_def
  isWhiteSpace_def isDigit_def valid_yards_def decimal_value_def digit_value_def
  toast_error_def

theorem recordPlayCall_yardage_validation_witness:
  "take 1 (requests (recordPlayCall accepting (recording ''50'')))
     = [InsertPlayCall (ustr ''p1'') (ustr ''g1'') 50] \<and>
   take 1 (requests (recordPlayCall accepting (recording ''-99'')))
     = [InsertPlayCall (ustr ''p1'') (ustr ''g1'') (- 99)] \<and>
   take 1 (requests (recordPlayCall accepting (recording ''-0'')))
     = [InsertPlayCall (ustr ''p1'') (ustr ''g1'') 0] \<and>
   recordPlayCall accepting (recording ''100'')
     = toast_error (ustr ''Yards must be between -99 and 99'') (recording ''100'') \<and>
   recordPlayCall accepting (recording ''3.5'')
     = toast_error (ustr ''Enter a whole number (no decimals).'') (recording ''3.5'') \<and>
   recordPlayCall accepting (recording [])
     = toast_error (ustr ''Enter a whole number (no decimals).'') (recording []) \<and>
   requests (recordPlayCall accepting (recording ''100'')) = [] \<and>
   requests (recordPlayCall accepting (recording ''3.5'')) = [] \<and>
   requests (recordPlayCall accepting (recording [])) = []"
  using
    recordPlayCall_yardage_validation [of "recording ''50''" _ "ustr ''g1''" accepting]
    recordPlayCall_yardage_validation [of "recording ''-99''" _ "ustr ''g1''" accepting]
    recordPlayCall_yardage_validation [of "recording ''-0''" _ "ustr ''g1''" accepting]
    recordPlayCall_yardage_validation [of "recording ''100''" _ "ustr ''g1''" accepting]
    recordPlayCall_yardage_validation [of "recording ''3.5''" _ "ustr ''g1''" accepting]
    recordPlayCall_yardage_validation [of "recording []" _ "ustr ''g1''" accepting]
  by (simp add: recording_simps)

section \<open>Missing connection parameters\<close>

lemma supabase_missing:
  "\<not> truthy (SUPABASE_URL e) \<or> \<not> truthy (SUPABASE_ANON_KEY e) \<Longrightarrow> supabase e = None"
  by (cases "SUPABASE_URL e"; cases "SUPABASE_ANON_KEY e") (auto simp add: supabase_def)

lemma step_without_client: "supabase e = None \<Longrightarrow> step e be ev st = st"
  by (simp add: step_def CoachAI_def)

lemma run_without_client: "supabase e = None \<Longrightarrow> run e evs st = st"
  by (induction evs arbitrary: st) (auto simp add: step_without_client)

text \<open>
  C6. If the service URL or the public API key is absent (undefined or empty) at startup,
  no backend client is constructed, the component renders the static fallback screen,
  and whatever happens afterwards leaves the state as it is: in particular the request
  log of a freshly mounted component stays empty, so no network call is ever attempted.
\<close>

theorem missing_configuration:
  assumes "\<not> truthy (SUPABASE_URL e) \<or> \<not> truthy (SUPABASE_ANON_KEY e)"
  shows "supabase e = None \<and> CoachAI e st = ConfigScreen \<and> run e evs st = st \<and>
         requests (run e evs (initial_app today)) = []"
proof -
  have none: "supabase e = None" using assms by (rule supabase_missing)
  then show ?thesis by (simp add: run_without_client CoachAI_def initial_app_def)
qed

theorem missing_configuration_witness:
  "supabase no_env = None \<and> CoachAI no_env (initial_app []) = ConfigScreen \<and>
   requests (run no_env [(accepting, SessionEffect), (accepting, ClickSignIn),
                         (accepting, DataEffect), (accepting, ClickSave)]
               (initial_app [])) = []"
proof -
  have absent: "\<not> truthy (SUPABASE_URL no_env) \<or> \<not> truthy (SUPABASE_ANON_KEY no_env)"
    by (simp add: no_env_def)
  from missing_configuration [OF absent] show ?thesis by blast
qed

section \<open>Creating a game\<close>

text \<open>
  C4. Whenever \<open>addGame\<close> succeeds (the trimmed opponent is not empty and the insert
  answers with the id of the new row), the new game is the active game afterwards,
  whichever game was active before and whatever the refresh of the games selected by
  default; the data effect that follows the change keeps it active.
\<close>

theorem addGame_activates_new_game:
  assumes "trim (newOpponent st) \<noteq> []"
    and "be_insertGame be (trim (newOpponent st)) (newDate st) = Inr (Some gid)"
    and "gid \<noteq> []"
  shows "activeGameId (addGame be st) = Some gid \<and>
         activeGameId (loadData be' (addGame be st)) = Some gid"
proof -
  have a: "activeGameId (addGame be st) = Some gid"
    using assms by (simp add: addGame_def Let_def)
  then have "truthy (activeGameId (addGame be st))" using assms by simp
  then have "activeGameId (loadData be' (addGame be st)) = activeGameId (addGame be st)"
    by (simp add: loadData_def activeGameId_refreshGames_truthy)
  with a show ?thesis by simp
qed

theorem addGame_activates_new_game_witness:
  "activeGameId (addGame with_games (scheduling (Some (ustr ''g1'')))) = Some (ustr ''g2'') \<and>
   activeGameId (refreshGames with_games None (scheduling None)) = Some (ustr ''g9'') \<and>
   activeGameId (addGame with_games (scheduling None)) = Some (ustr ''g2'') \<and>
   activeGameId (loadData with_games (addGame with_games (scheduling None))) = Some (ustr ''g2'')"
proof -
  have t: "trim (ustr '' Lions '') = ustr ''Lions''"
    by (simp add: ustr_def trim_def isWhiteSpace_def)
  have g: "activeGameId (refreshGames with_games None (scheduling None)) = Some (ustr ''g9'')"
    by (simp add: refreshGames_def with_games_def Let_def)
  show ?thesis
    using addGame_activates_new_game
        [of "scheduling (Some (ustr ''g1''))" with_games "ustr ''g2''" with_games]
      addGame_activates_new_game [of "scheduling None" with_games "ustr ''g2''" with_games] t g
    by (simp add: scheduling_def with_games_def accepting_def ustr_def)
qed


section \<open>Adding a play\<close>

lemma dropWhile_all_iff:
  "(\<forall>c \<in> set (dropWhile P s). P c) \<longleftrightarrow> dropWhile P s = []"
proof
  assume all: "\<forall>c \<in> set (dropWhile P s). P c"
  show "dropWhile P s = []"
  proof (rule ccontr)
    assume ne: "dropWhile P s \<noteq> []"
    then have "\<not> P (hd (dropWhile P s))" by (rule hd_dropWhile)
    moreover from ne have "hd (dropWhile P s) \<in> set (dropWhile P s)" by simp
    ultimately show False using all by blast
  qed
next
  assume "dropWhile P s = []"
  then show "\<forall>c \<in> set (dropWhile P s). P c" by (auto dest: set_dropWhileD)
qed

lemma trim_empty_iff: "trim s = [] \<longleftrightarrow> list_all isWhiteSpace s"
proof -
  have "trim s = [] \<longleftrightarrow> (\<forall>c \<in> set (dropWhile isWhiteSpace s). isWhiteSpace c)"
    by (simp add: trim_def)
  also have "\<dots> \<longleftrightarrow> dropWhile isWhiteSpace s = []"
    by (rule dropWhile_all_iff)
  also have "\<dots> \<longleftrightarrow> list_all isWhiteSpace s"
    by (simp add: list_all_iff)
  finally show ?thesis .
qed

text \<open>
  C7. For every input name, \<open>addPlay\<close> rejects the request with the validation message
  and issues no insert when the name is empty or consists of white space only.
  Otherwise it issues the insert of the trimmed name together with the selected icon,
  and with a backend that accepts the insert (so that the play is persisted) the
  re-fetch of the plays list is the request that follows. A backend error is a failure
  of its own: the error is shown and the operation ends there.
\<close>

theorem addPlay_validates_then_inserts:
  "(list_all isWhiteSpace (newPlayName st) \<longrightarrow>
      addPlay be st = toast_error (ustr ''Play name required'') st \<and>
      requests (addPlay be st) = requests st) \<and>
   (\<not> list_all isWhiteSpace (newPlayName st) \<longrightarrow>
      take (Suc (length (requests st))) (requests (addPlay be st))
        = requests st @ [InsertPlay (trim (newPlayName st)) (newPlayIcon st)]) \<and>
   (\<not> list_all isWhiteSpace (newPlayName st) \<and>
    be_insertPlay be (trim (newPlayName st)) (newPlayIcon st) = None \<longrightarrow>
      requests (addPlay be st)
        = requests st @ [InsertPlay (trim (newPlayName st)) (newPlayIcon st), SelectPlays]) \<and>
   (\<forall>msg. \<not> list_all isWhiteSpace (newPlayName st) \<and>
      be_insertPlay be (trim (newPlayName st)) (newPlayIcon st) = Some msg \<longrightarrow>
      addPlay be st
        = toast_error msg (issue (InsertPlay (trim (newPlayName st)) (newPlayIcon st)) st))"
  by (auto simp add: addPlay_def Let_def trim_empty_iff split: option.splits)

theorem addPlay_validates_then_inserts_witness:
  "addPlay accepting (naming ''  '') = toast_error (ustr ''Play name required'') (naming ''  '') \<and>
   requests (addPlay accepting (naming ''  '')) = [] \<and>
   requests (addPlay accepting (naming '' Iso ''))
     = [InsertPlay (ustr ''Iso'') (ustr ''inside-run''), SelectPlays] \<and>
   addPlay offline (naming '' Iso '')
     = toast_error (ustr ''Failed to fetch'')
         (issue (InsertPlay (ustr ''Iso'') (ustr ''inside-run'')) (naming '' Iso ''))"
proof -
  have blank: "list_all isWhiteSpace (newPlayName (naming ''  ''))"
    by (simp add: naming_def ustr_def isWhiteSpace_def)
  have named: "\<not> list_all isWhiteSpace (newPlayName (naming '' Iso '')) \<and>
      trim (newPlayName (naming '' Iso '')) = ustr ''Iso'' \<and>
      newPlayIcon (naming '' Iso '') = ustr ''inside-run'' \<and>
      requests (naming '' Iso '') = [] \<and> requests (naming ''  '') = []"
    by (simp add: naming_def initial_app_def ustr_def isWhiteSpace_def trim_def)
  have answers: "be_insertPlay accepting n i = None \<and>
      be_insertPlay offline n i = Some (ustr ''Failed to fetch'')" for n i
    by (simp add: accepting_def offline_def)
  from addPlay_validates_then_inserts [where st = "naming ''  ''" and be = accepting]
    addPlay_validates_then_inserts [where st = "naming '' Iso ''" and be = accepting]
    addPlay_validates_then_inserts [where st = "naming '' Iso ''" and be = offline]
    blank named answers
  show ?thesis by simp
qed

section \<open>Signing up and signing in\<close>

lemma signUp_cells: "(signUp be st)\<lparr>requests := requests st, toasts := toasts st\<rparr> = st"
  by (simp add: signUp_def Let_def issue_def toast_error_def toast_success_def
      split: sum.splits option.splits)

lemma signUp_requests:
  "requests (signUp be st) = requests st \<or>
   requests (signUp be st) = requests st @ [AuthSignUp (email st) (password st)]"
  by (simp add: signUp_def Let_def split: sum.splits option.splits)

lemma signIn_requests:
  "be_signIn be (email st) (password st) = Inr (Some uid) \<Longrightarrow>
   requests (signIn be st) = requests st @
     [AuthSignIn (email st) (password st),
      UpsertProfile uid (if teamName st = [] then ustr ''My Team'' else teamName st),
      SelectPlays, SelectGames]"
  by (simp add: signIn_def Let_def split: option.splits)

lemma no_upsert_elsewhere:
  "ev \<noteq> ClickSignIn \<Longrightarrow>
   UpsertProfile uid tn \<notin> set (drop (length (requests st)) (requests (handle be ev st)))"
proof (cases ev)
  case SessionEffect
  then show ?thesis by (simp add: loadSession_def)
next
  case DataEffect
  then show ?thesis by (simp add: loadData_def requests_refreshRecent)
next
  case ClickSignUp
  then show ?thesis using signUp_requests [where be = be and st = st] by auto
next
  case ClickSignOut
  then show ?thesis by (simp add: signOut_def)
next
  case ClickAddPlay
  then show ?thesis by (simp add: addPlay_def Let_def split: option.splits)
next
  case ClickCreateGame
  then show ?thesis by (simp add: addGame_def Let_def split: sum.splits)
next
  case (ClickDeletePlay c)
  then show ?thesis
    by (simp add: deletePlay_def Let_def requests_refreshRecent split: option.splits)
next
  case ClickSave
  then show ?thesis
    by (simp add: recordPlayCall_def Let_def requests_refreshRecent split: option.splits)
qed simp_all

lemma signUp_reads: "email (signUp be st) = email st \<and> password (signUp be st) = password st
  \<and> teamName (signUp be st) = teamName st"
  by (simp add: signUp_def Let_def issue_def toast_error_def toast_success_def
      split: sum.splits option.splits)

text \<open>
  C9. \<open>signUp\<close> never writes the team name. Whatever the outcome, it leaves every cell
  of the component as it was (plays, games, active game and recent calls included),
  and the only request it may issue is the sign-up call of the auth service, so the
  profile record is not touched. A sign-in that follows and succeeds upserts the profile
  with the team name that was entered, or with \<open>"My Team"\<close> if the field is empty; no
  other handler or effect of the component issues a profile upsert.
\<close>

theorem signUp_leaves_team_name_unsaved:
  "(signUp be st)\<lparr>requests := requests st, toasts := toasts st\<rparr> = st \<and>
   (requests (signUp be st) = requests st \<or>
    requests (signUp be st) = requests st @ [AuthSignUp (email st) (password st)]) \<and>
   (be_signIn be' (email st) (password st) = Inr (Some uid) \<longrightarrow>
      requests (signIn be' (signUp be st)) = requests (signUp be st) @
        [AuthSignIn (email st) (password st),
         UpsertProfile uid (if teamName st = [] then ustr ''My Team'' else teamName st),
         SelectPlays, SelectGames]) \<and>
   (ev \<noteq> ClickSignIn \<longrightarrow>
      UpsertProfile uid' tn \<notin> set (drop (length (requests st')) (requests (handle be'' ev st'))))"
  using signUp_cells [where be = be and st = st] signUp_requests [where be = be and st = st]
    signUp_reads [where be = be and st = st]
    signIn_requests [where be = be' and st = "signUp be st" and uid = uid]
    no_upsert_elsewhere [where ev = ev and uid = uid' and tn = tn and st = st' and be = be'']
  by simp

theorem signUp_leaves_team_name_unsaved_witness:
  "requests (signUp accepting (registering ''Eagles''))
     = [AuthSignUp (ustr ''coach@team.com'') (ustr ''secret'')] \<and>
   requests (signIn accepting (signUp accepting (registering ''Eagles'')))
     = [AuthSignUp (ustr ''coach@team.com'') (ustr ''secret''),
        AuthSignIn (ustr ''coach@team.com'') (ustr ''secret''),
        UpsertProfile (ustr ''u1'') (ustr ''Eagles''), SelectPlays, SelectGames] \<and>
   requests (signIn accepting (registering []))
     = [AuthSignIn (ustr ''coach@team.com'') (ustr ''secret''),
        UpsertProfile (ustr ''u1'') (ustr ''My Team''), SelectPlays, SelectGames]"
proof -
  have ok: "be_signIn accepting e p = Inr (Some (ustr ''u1''))" for e p
    by (simp add: accepting_def)
  have r: "requests (signUp accepting (registering ''Eagles''))
     = [AuthSignUp (ustr ''coach@team.com'') (ustr ''secret'')]"
    by (simp add: signUp_def registering_def initial_app_def accepting_def Let_def ustr_def)
  have s: "requests (signIn accepting (registering []))
     = [AuthSignIn (ustr ''coach@team.com'') (ustr ''secret''),
        UpsertProfile (ustr ''u1'') (ustr ''My Team''), SelectPlays, SelectGames]"
    by (simp add: signIn_def registering_def initial_app_def accepting_def Let_def ustr_def)
  have e: "email (registering ''Eagles'') = ustr ''coach@team.com'' \<and>
           password (registering ''Eagles'') = ustr ''secret'' \<and>
           teamName (registering ''Eagles'') = ustr ''Eagles'' \<and> ustr ''Eagles'' \<noteq> []"
    by (simp add: registering_def ustr_def)
  from signUp_leaves_team_name_unsaved
      [where be = accepting and st = "registering ''Eagles''" and be' = accepting
         and uid = "ustr ''u1''" and ev = ClickSignUp and be'' = accepting
         and st' = "registering ''Eagles''"] ok r s e
  show ?thesis by simp
qed


section \<open>The statistics aggregation\<close>

text \<open>The insertion-ordered map, on lists of the form \<open>map (\<lambda>k. (k, f k)) ks\<close>.\<close>

lemma map_has_keys: "map_has (map (\<lambda>k. (k, f k)) ks) k \<longleftrightarrow> k \<in> set ks"
  by (induction ks) auto

lemma map_get_keys:
  "map_get (map (\<lambda>k. (k, f k)) ks) k = (if k \<in> set ks then Some (f k) else None)"
  by (induction ks) auto

lemma map_set_present:
  "distinct ks \<Longrightarrow> k \<in> set ks \<Longrightarrow>
   map_set (map (\<lambda>k. (k, f k)) ks) k v = map (\<lambda>k'. (k', if k' = k then v else f k')) ks"
  by (induction ks) auto

lemma map_set_absent:
  "k \<notin> set ks \<Longrightarrow>
   map_set (map (\<lambda>k. (k, f k)) ks) k v = map (\<lambda>k. (k, f k)) ks @ [(k, v)]"
  by (induction ks) auto

lemma map_get_appended:
  "k \<notin> set ks \<Longrightarrow> map_get (map (\<lambda>k. (k, f k)) ks @ [(k, v)]) k = Some v"
  by (induction ks) auto

lemma map_set_appended:
  "k \<notin> set ks \<Longrightarrow>
   map_set (map (\<lambda>k. (k, f k)) ks @ [(k, v)]) k w = map (\<lambda>k. (k, f k)) ks @ [(k, w)]"
  by (induction ks) auto

text \<open>First occurrences, extended at the end.\<close>

lemma set_first_occurrences [simp]: "set (first_occurrences xs) = set xs"
  by (induction xs) auto

lemma distinct_first_occurrences [simp]: "distinct (first_occurrences xs)"
  by (induction xs) auto

lemma first_occurrences_snoc:
  "first_occurrences (xs @ [x]) =
     (if x \<in> set xs then first_occurrences xs else first_occurrences xs @ [x])"
  by (induction xs) auto

lemma tally_calls_append:
  "tally_calls (xs @ ys) m =
     (case tally_calls xs m of Inl e \<Rightarrow> Inl e | Inr m' \<Rightarrow> tally_calls ys m')"
  by (induction xs arbitrary: m) (auto split: sum.splits)

lemma tally_of_snoc:
  "tally_of (rs @ [r]) k =
     (if play_name r = k
      then (tally_of rs k)\<lparr>v_count := v_count (tally_of rs k) + 1,
                            v_sum := v_sum (tally_of rs k) + yards r\<rparr>
      else tally_of rs k)"
  by (simp add: tally_of_def calls_named_def yards_total_def)

lemma tally_of_unseen:
  "k \<notin> play_name ` set rs \<Longrightarrow> tally_of rs k = \<lparr>v_count = 0, v_sum = 0\<rparr>"
proof -
  assume "k \<notin> play_name ` set rs"
  then have "filter (\<lambda>r. play_name r = k) rs = []"
    by (auto simp add: filter_empty_conv)
  then show ?thesis by (simp add: tally_of_def calls_named_def yards_total_def)
qed

text \<open>
  The loop: after all calls the map holds, for each name in the order of the first
  occurrences, the number and the sum of the yards of the calls of that name. It never
  reads a missing key.
\<close>

lemma tally_calls_result:
  "tally_calls calls [] =
     Inr (map (\<lambda>k. (k, tally_of calls k)) (first_occurrences (map play_name calls)))"
proof (induction calls rule: rev_induct)
  case Nil
  show ?case by simp
next
  case (snoc r rs)
  let ?ks = "first_occurrences (map play_name rs)"
  let ?k = "play_name r"
  show ?case
  proof (cases "?k \<in> set ?ks")
    case True
    then have in_names: "?k \<in> set (map play_name rs)" by simp
    have "tally_call r (map (\<lambda>k. (k, tally_of rs k)) ?ks) =
        Inr (map (\<lambda>k. (k, tally_of (rs @ [r]) k)) ?ks)"
      using True
      by (simp add: tally_call_def Let_def map_has_keys map_get_keys map_set_present tally_of_snoc)
    with snoc in_names show ?thesis
      by (simp add: tally_calls_append first_occurrences_snoc)
  next
    case False
    then have not_in: "?k \<notin> play_name ` set rs" by simp
    have same: "map (\<lambda>k. (k, tally_of (rs @ [r]) k)) ?ks = map (\<lambda>k. (k, tally_of rs k)) ?ks"
      using False by (auto simp add: tally_of_snoc)
    have "tally_call r (map (\<lambda>k. (k, tally_of rs k)) ?ks) =
        Inr (map (\<lambda>k. (k, tally_of rs k)) ?ks @ [(?k, tally_of (rs @ [r]) ?k)])"
      using False not_in
      by (simp add: tally_call_def Let_def map_has_keys map_set_absent map_get_appended
          map_set_appended tally_of_snoc tally_of_unseen)
    with snoc not_in same show ?thesis
      by (simp add: tally_calls_append first_occurrences_snoc)
  qed
qed


text \<open>Printing: \<open>toFixed(1)\<close> writes the nearest tenth, halves away from zero.\<close>

declare digits.simps [simp del]

lemma digits_nonempty: "digits n \<noteq> []"
  by (subst digits.simps) simp

lemma digits_small: "n < 10 \<Longrightarrow> digits n = [digit_char n]"
  by (subst digits.simps) simp

lemma digits_large: "\<not> n < 10 \<Longrightarrow> digits n = digits (n div 10) @ [digit_char (n mod 10)]"
  by (subst digits.simps) simp

lemma nearest_tenths_round:
  assumes "0 \<le> x"
  shows "nearest_tenths x = nat (round (10 * x))"
proof -
  let ?n0 = "\<lfloor>x * 10\<rfloor>"
  have lo: "of_int ?n0 \<le> x * 10" and hi: "x * 10 < of_int ?n0 + 1"
    by linarith+
  show ?thesis
  proof (cases "of_int (?n0 + 1) / 10 - x \<le> x - of_int ?n0 / 10")
    case True
    then have "of_int (?n0 + 1) \<le> 10 * x + 1 / 2" by simp
    moreover from hi have "10 * x + 1 / 2 < of_int (?n0 + 1) + 1" by simp
    ultimately have "\<lfloor>10 * x + 1 / 2\<rfloor> = ?n0 + 1" by (rule floor_unique)
    with True show ?thesis by (simp add: nearest_tenths_def round_def Let_def)
  next
    case False
    then have "10 * x + 1 / 2 < of_int ?n0 + 1" by simp
    moreover from lo have "of_int ?n0 \<le> 10 * x + 1 / 2" by linarith
    ultimately have "\<lfloor>10 * x + 1 / 2\<rfloor> = ?n0" by (simp add: floor_unique)
    with False show ?thesis by (simp add: nearest_tenths_def round_def Let_def)
  qed
qed

lemma toFixed1_digits:
  fixes n :: nat
  defines "m \<equiv> (if n = 0 then ustr ''0'' else digits n)"
  defines "m' \<equiv> (if length m \<le> 1 then replicate (2 - length m) (digit_char 0) @ m else m)"
  shows "take (length m' - 1) m' = digits (n div 10) \<and>
         drop (length m' - 1) m' = [digit_char (n mod 10)]"
proof (cases "n < 10")
  case True
  then have "m = [digit_char n]"
    by (auto simp add: m_def digits_small ustr_def digit_char_def)
  with True show ?thesis by (simp add: m'_def digits_small)
next
  case False
  then have m: "m = digits (n div 10) @ [digit_char (n mod 10)]"
    by (simp add: m_def digits_large)
  have "digits (n div 10) \<noteq> []" by (rule digits_nonempty)
  then have "\<not> length m \<le> 1" by (cases "digits (n div 10)") (simp_all add: m)
  then show ?thesis by (simp add: m'_def m)
qed

lemma toFixed1_one_decimal:
  assumes "\<bar>q\<bar> < 10 ^ 21"
  shows "toFixed1 large (Finite q) = one_decimal q"
proof -
  define n where "n = nearest_tenths \<bar>q\<bar>"
  define m where "m = (if n = 0 then ustr ''0'' else digits n)"
  define m' where "m' = (if length m \<le> 1 then replicate (2 - length m) (digit_char 0) @ m else m)"
  have abs: "(if q < 0 then - q else q) = \<bar>q\<bar>" by simp
  have n: "n = nat (round (10 * \<bar>q\<bar>))"
    unfolding n_def by (rule nearest_tenths_round) simp
  from assms have small: "\<not> 10 ^ 21 \<le> \<bar>q\<bar>" by simp
  have split: "take (length m' - 1) m' = digits (n div 10) \<and>
         drop (length m' - 1) m' = [digit_char (n mod 10)]"
    unfolding m'_def m_def by (rule toFixed1_digits)
  have "toFixed1 large (Finite q) =
      (if q < 0 then ustr ''-'' else []) @ take (length m' - 1) m' @ ustr ''.'' @
        drop (length m' - 1) m'"
    unfolding toFixed1.simps abs Let_def m'_def m_def n_def
    using small by (simp only: if_False)
  also have "\<dots> = one_decimal q"
    unfolding one_decimal_def Let_def n [symmetric] using split by (simp only:)
  finally show ?thesis .
qed

text \<open>
  What is printed is a nearest tenth, and the digits printed denote it.
\<close>

lemma nearest_tenth_error:
  "\<bar>rat_of_int (round (10 * \<bar>q\<bar>)) / 10 - \<bar>q\<bar>\<bar> \<le> 1 / 20"
proof -
  have "\<bar>rat_of_int (round (10 * \<bar>q\<bar>)) - 10 * \<bar>q\<bar>\<bar> \<le> 1 / 2"
    by (rule of_int_round_abs_le)
  then show ?thesis by linarith
qed

lemma digit_value_digit_char:
  assumes "d < 10"
  shows "digit_value (digit_char d) = d"
proof -
  have "unat (word_of_nat (48 + d) :: 16 word) = (48 + d) mod 2 ^ LENGTH(16)"
    by (rule unat_of_nat)
  also from assms have "\<dots> = 48 + d" by simp
  finally show ?thesis by (simp only: digit_value_def digit_char_def)
qed

lemma decimal_value_snoc: "decimal_value (ds @ [c]) = 10 * decimal_value ds + digit_value c"
  by (simp add: decimal_value_def)

lemma decimal_value_digits: "decimal_value (digits n) = n"
proof (induction n rule: digits.induct)
  case (1 n)
  show ?case
  proof (cases "n < 10")
    case True
    then show ?thesis
      by (simp add: digits_small decimal_value_def digit_value_digit_char)
  next
    case False
    with 1 show ?thesis
      by (simp add: digits_large decimal_value_snoc digit_value_digit_char)
  qed
qed

text \<open>
  The division. For a sum of at most 99 yards per call over at most ten calls the double
  is within \<open>2^(-47)\<close> of the quotient, and equal to it when the quotient is a
  multiple of one eighth.
\<close>

lemma pow2_powi: "pow2 i = 2 powi i"
  by (simp add: pow2_def power_int_def inverse_eq_divide power_one_over)

lemma pow2_pos: "0 < pow2 i"
  by (simp add: pow2_powi zero_less_power_int)

lemma pow2_add: "pow2 (i + j) = pow2 i * pow2 j"
  by (simp add: pow2_powi power_int_add)

lemma pow2_diff: "pow2 (i - j) = pow2 i / pow2 j"
proof -
  have "pow2 i = pow2 (i - j) * pow2 j"
    using pow2_add [of "i - j" j] by simp
  moreover have "pow2 j \<noteq> 0" using pow2_pos [of j] by simp
  ultimately show ?thesis by simp
qed

lemma pow2_mono: "i \<le> j \<Longrightarrow> pow2 i \<le> pow2 j"
  by (simp add: pow2_powi power_int_increasing)

lemma pow2_strict_mono: "i < j \<Longrightarrow> pow2 i < pow2 j"
  by (simp add: pow2_powi power_int_strict_increasing)

lemma pow2_less_cancel: "pow2 i < pow2 j \<Longrightarrow> i < j"
  using pow2_mono [of j i] by (cases "i < j") auto

lemma pow2_nat: "0 \<le> i \<Longrightarrow> pow2 i = of_int (2 ^ nat i)"
  by (simp add: pow2_def)

lemma bitlen_pow2_bounds:
  assumes "0 < p"
  shows "pow2 (bitlen p - 1) \<le> of_int p" and "of_int p < pow2 (bitlen p)"
proof -
  from assms have b: "2 ^ nat (bitlen p - 1) \<le> p" "p < 2 ^ nat (bitlen p)"
    using bitlen_bounds [of p] by simp_all
  have "1 \<le> bitlen p"
  proof (rule ccontr)
    assume "\<not> 1 \<le> bitlen p"
    then have "nat (bitlen p) = 0" by simp
    with b(2) assms show False by simp
  qed
  then have n1: "0 \<le> bitlen p - 1" and n2: "0 \<le> bitlen p" by simp_all
  from b(1) have "rat_of_int (2 ^ nat (bitlen p - 1)) \<le> rat_of_int p"
    by (simp only: of_int_le_iff)
  then show "pow2 (bitlen p - 1) \<le> of_int p" by (simp only: pow2_nat [OF n1])
  from b(2) have "rat_of_int p < rat_of_int (2 ^ nat (bitlen p))"
    by (simp only: of_int_less_iff)
  then show "of_int p < pow2 (bitlen p)" by (simp only: pow2_nat [OF n2])
qed

lemma quotient_exponent_bounds:
  assumes "0 < p" and "0 < q"
  shows "pow2 (quotient_exponent p q) \<le> of_int p / of_int q \<and>
         of_int p / of_int q < pow2 (quotient_exponent p q + 1)"
proof -
  let ?a = "rat_of_int p / rat_of_int q"
  let ?d = "bitlen p - bitlen q"
  note bp = bitlen_pow2_bounds [OF assms(1)]
  note bq = bitlen_pow2_bounds [OF assms(2)]
  from assms have p0: "0 < rat_of_int p" and q0: "0 < rat_of_int q" by simp_all
  have upper: "?a < pow2 (?d + 1)"
  proof -
    have "?a < pow2 (bitlen p) / pow2 (bitlen q - 1)"
      using bp(2) bq(1) p0 pow2_pos [of "bitlen q - 1"]
      by (intro frac_less) simp_all
    also have "\<dots> = pow2 (bitlen p - (bitlen q - 1))" by (simp only: pow2_diff)
    also have "bitlen p - (bitlen q - 1) = ?d + 1" by simp
    finally show ?thesis .
  qed
  have lower: "pow2 (?d - 1) < ?a"
  proof -
    have "pow2 (bitlen p - 1) / pow2 (bitlen q) < ?a"
      using bp(1) bq(2) q0 pow2_pos [of "bitlen p - 1"]
      by (intro frac_less2) simp_all
    moreover have "pow2 (bitlen p - 1) / pow2 (bitlen q) = pow2 (bitlen p - 1 - bitlen q)"
      by (simp only: pow2_diff)
    moreover have "bitlen p - 1 - bitlen q = ?d - 1" by simp
    ultimately show ?thesis by simp
  qed
  show ?thesis
  proof (cases "pow2 ?d \<le> ?a")
    case True
    then have "quotient_exponent p q = ?d" by (simp add: quotient_exponent_def)
    with True upper show ?thesis by simp
  next
    case False
    then have "quotient_exponent p q = ?d - 1" by (simp add: quotient_exponent_def)
    with False lower show ?thesis by simp
  qed
qed

lemma round_half_even_error: "\<bar>of_int (round_half_even y) - y\<bar> \<le> 1 / 2"
proof -
  have "of_int \<lfloor>y\<rfloor> \<le> y" "y < of_int \<lfloor>y\<rfloor> + 1" by linarith+
  then show ?thesis
    by (auto simp add: round_half_even_def Let_def)
qed

lemma round_half_even_of_int: "round_half_even (of_int k) = k"
  by (simp add: round_half_even_def)

lemma pow2_values:
  "pow2 (- 4) = 1 / 16" "pow2 7 = 128" "pow2 3 = 8"
  by (simp_all add: pow2_def)

lemma pow2_47: "10 * pow2 (- 47) < 1 / 20"
  by (simp add: pow2_def)

lemma js_divide_value:
  fixes s :: int and c :: nat
  assumes "s \<noteq> 0" and "0 < c" and "c \<le> 10" and "\<bar>s\<bar> \<le> 99 * int c"
  shows "\<exists>v. js_divide s c = Finite (if s < 0 then - v else v) \<and> 0 < v \<and> v \<le> 100 \<and>
           \<bar>v - rat_of_int \<bar>s\<bar> / rat_of_nat c\<bar> \<le> pow2 (- 47) \<and>
           ((\<exists>j. rat_of_int \<bar>s\<bar> / rat_of_nat c * 8 = rat_of_int j) \<longrightarrow>
              v = rat_of_int \<bar>s\<bar> / rat_of_nat c)"
proof -
  define a :: rat where "a = of_int \<bar>s\<bar> / of_nat c"
  define e0 where "e0 = quotient_exponent \<bar>s\<bar> (int c)"
  define ulp where "ulp = pow2 (e0 - 52)"
  define v where "v = of_int (round_half_even (a / ulp)) * ulp"
  from assms have c0: "0 < rat_of_nat c" and c10: "rat_of_nat c \<le> 10" by simp_all
  from assms(1) have "1 \<le> \<bar>s\<bar>" by arith
  then have "rat_of_int 1 \<le> rat_of_int \<bar>s\<bar>" by (simp only: of_int_le_iff)
  then have p1: "1 \<le> rat_of_int \<bar>s\<bar>" by simp
  have a_lo: "1 / 10 \<le> a"
  proof -
    have "1 / 10 \<le> 1 / rat_of_nat c" using c0 c10 by (simp add: field_simps)
    also have "\<dots> \<le> rat_of_int \<bar>s\<bar> / rat_of_nat c"
      using p1 c0 by (simp add: divide_le_cancel)
    finally show ?thesis by (simp add: a_def)
  qed
  have a_hi: "a \<le> 99"
  proof -
    from assms(4) have "rat_of_int \<bar>s\<bar> \<le> rat_of_int (99 * int c)" by (simp only: of_int_le_iff)
    then have "rat_of_int \<bar>s\<bar> \<le> 99 * rat_of_nat c" by simp
    with c0 show ?thesis by (simp add: a_def pos_divide_le_eq)
  qed
  have eb: "pow2 e0 \<le> a" "a < pow2 (e0 + 1)"
    using quotient_exponent_bounds [of "\<bar>s\<bar>" "int c"] assms
    by (simp_all add: a_def e0_def)
  have "pow2 (- 4) < pow2 (e0 + 1)" using a_lo eb(2) by (simp add: pow2_values)
  then have e_lo: "- 4 \<le> e0" using pow2_less_cancel by fastforce
  have "pow2 e0 < pow2 7" using a_hi eb(1) by (simp add: pow2_values)
  then have e_hi: "e0 \<le> 6" using pow2_less_cancel by fastforce
  from e_lo have emax: "max e0 (- 1022) = e0" by simp
  have ulp0: "0 < ulp" by (simp add: ulp_def pow2_pos)
  have ulp_small: "ulp \<le> pow2 (- 46)"
    unfolding ulp_def using e_hi by (intro pow2_mono) simp
  have "\<bar>of_int (round_half_even (a / ulp)) - a / ulp\<bar> \<le> 1 / 2"
    by (rule round_half_even_error)
  then have "\<bar>of_int (round_half_even (a / ulp)) - a / ulp\<bar> * ulp \<le> 1 / 2 * ulp"
    using ulp0 by (simp only: mult_le_cancel_right_pos)
  moreover have "\<bar>of_int (round_half_even (a / ulp)) - a / ulp\<bar> * ulp = \<bar>v - a\<bar>"
  proof -
    have "\<bar>of_int (round_half_even (a / ulp)) - a / ulp\<bar> * ulp
        = \<bar>(of_int (round_half_even (a / ulp)) - a / ulp) * ulp\<bar>"
      using ulp0 by (simp add: abs_mult)
    also have "(of_int (round_half_even (a / ulp)) - a / ulp) * ulp = v - a"
      using ulp0 by (simp add: v_def left_diff_distrib)
    finally show ?thesis .
  qed
  moreover have "1 / 2 * ulp \<le> pow2 (- 47)"
  proof -
    have "pow2 (- 46) = 2 * pow2 (- 47)" using pow2_add [of 1 "- 47"] by (simp add: pow2_def)
    with ulp_small show ?thesis by simp
  qed
  ultimately have err: "\<bar>v - a\<bar> \<le> pow2 (- 47)" by simp
  have tiny: "pow2 (- 47) < 1 / 200" using pow2_47 by simp
  from err tiny a_lo have v0: "0 < v" by linarith
  from err tiny a_hi have v100: "v \<le> 100" by linarith
  have "pow2 7 \<le> pow2 1024" by (rule pow2_mono) simp
  with v100 have no_overflow: "\<not> pow2 1024 \<le> v" by (simp add: pow2_values)
  have exact: "v = a" if "a * 8 = of_int j" for j :: int
  proof -
    have n: "0 \<le> 49 - e0" using e_hi by simp
    have "a / ulp = a * pow2 (52 - e0)"
      using pow2_diff [of 0 "e0 - 52"] by (simp add: ulp_def pow2_def)
    also have "pow2 (52 - e0) = pow2 3 * pow2 (49 - e0)"
      using pow2_add [of 3 "49 - e0"] by simp
    also have "a * (pow2 3 * pow2 (49 - e0)) = of_int j * of_int (2 ^ nat (49 - e0))"
      using that by (simp add: pow2_values pow2_nat [OF n])
    also have "\<dots> = of_int (j * 2 ^ nat (49 - e0))" by simp
    finally have "a / ulp = of_int (j * 2 ^ nat (49 - e0))" .
    then have "round_half_even (a / ulp) = j * 2 ^ nat (49 - e0)"
      by (simp only: round_half_even_of_int)
    then have "v = of_int (j * 2 ^ nat (49 - e0)) * ulp" by (simp add: v_def)
    also have "\<dots> = a / ulp * ulp" using \<open>a / ulp = of_int (j * 2 ^ nat (49 - e0))\<close> by simp
    also have "\<dots> = a" using ulp0 by simp
    finally show ?thesis .
  qed
  have cn: "(c = 0) = False" using assms(2) by simp
  have sn: "(s = 0) = False" using assms(1) by simp
  have ov: "(pow2 1024 \<le> v) = False" using no_overflow by simp
  have "js_divide s c = Finite (if s < 0 then - v else v)"
    by (simp only: js_divide_def cn sn if_False Let_def e0_def [symmetric] emax
        ulp_def [symmetric] a_def [symmetric] v_def [symmetric] ov)
  with v0 v100 err exact show ?thesis
    unfolding a_def by blast
qed

text \<open>
  A quotient \<open>p / q\<close> with \<open>q \<le> 10\<close> that lies halfway between two tenths has
  \<open>q = 4\<close> or \<open>q = 8\<close>, so it is a double and is rounded as it stands; any other
  quotient is at least one twentieth of a tenth away from the halfway points, which the
  rounding error of the division cannot bridge.
\<close>

lemma halfway_is_dyadic:
  fixes p q :: int
  assumes "0 < q" and "q \<le> 10" and "(2 * q) dvd (20 * p + q)"
  shows "\<exists>j. rat_of_int p / rat_of_int q * 8 = rat_of_int j"
proof -
  from assms(3) obtain m where m: "20 * p + q = 2 * q * m" by (auto simp add: dvd_def)
  from assms(1,2) have "q = 1 \<or> q = 2 \<or> q = 3 \<or> q = 4 \<or> q = 5 \<or> q = 6 \<or> q = 7 \<or> q = 8
      \<or> q = 9 \<or> q = 10" by arith
  with m have "q = 4 \<or> q = 8" by (elim disjE) (simp_all, presburger+)
  then show ?thesis
  proof
    assume "q = 4"
    then have "rat_of_int p / rat_of_int q * 8 = rat_of_int (2 * p)" by simp
    then show ?thesis ..
  next
    assume "q = 8"
    then have "rat_of_int p / rat_of_int q * 8 = rat_of_int p" by simp
    then show ?thesis ..
  qed
qed

lemma tenths_stable:
  fixes p q :: int and v :: rat
  assumes q: "0 < q" "q \<le> 10"
    and near: "\<bar>v - rat_of_int p / rat_of_int q\<bar> \<le> pow2 (- 47)"
    and exact: "(2 * q) dvd (20 * p + q) \<Longrightarrow> v = rat_of_int p / rat_of_int q"
  shows "round (10 * v) = round (10 * (rat_of_int p / rat_of_int q))"
proof (cases "(2 * q) dvd (20 * p + q)")
  case True
  then show ?thesis by (simp only: exact)
next
  case False
  define a where "a = rat_of_int p / rat_of_int q"
  define n where "n = (20 * p + q) div (2 * q)"
  define r where "r = (20 * p + q) mod (2 * q)"
  from q have D0: "0 < 2 * q" and D20: "2 * q \<le> 20" by simp_all
  from False have "r \<noteq> 0" by (simp add: r_def dvd_eq_mod_eq_0)
  moreover from D0 have "0 \<le> r" and "r < 2 * q" by (simp_all add: r_def)
  ultimately have r1: "1 \<le> r" and r2: "r \<le> 2 * q - 1" by simp_all
  have "20 * p + q = 2 * q * n + r" by (simp add: n_def r_def)
  then have "rat_of_int (20 * p + q) = rat_of_int (2 * q * n + r)" by (simp only:)
  then have split: "20 * rat_of_int p + rat_of_int q = 2 * rat_of_int q * rat_of_int n + rat_of_int r"
    by simp
  from q have q0: "0 < rat_of_int q" by simp
  have y: "10 * a + 1 / 2 = rat_of_int n + rat_of_int r / (2 * rat_of_int q)"
  proof -
    have "10 * a + 1 / 2 = (20 * rat_of_int p + rat_of_int q) / (2 * rat_of_int q)"
      using q0 by (simp add: a_def field_simps)
    also have "\<dots> = (2 * rat_of_int q * rat_of_int n + rat_of_int r) / (2 * rat_of_int q)"
      by (simp only: split)
    also have "\<dots> = rat_of_int n + rat_of_int r / (2 * rat_of_int q)"
      using q0 by (simp add: field_simps)
    finally show ?thesis .
  qed
  have lo: "1 / 20 \<le> rat_of_int r / (2 * rat_of_int q)"
  proof -
    from r1 D20 have "2 * q \<le> 20 * r" by linarith
    then have "rat_of_int (2 * q) \<le> rat_of_int (20 * r)" by (simp only: of_int_le_iff)
    then have "2 * rat_of_int q \<le> 20 * rat_of_int r" by simp
    with q0 show ?thesis by (simp add: field_simps)
  qed
  have hi: "rat_of_int r / (2 * rat_of_int q) \<le> 1 - 1 / 20"
  proof -
    from r2 D20 have "20 * r \<le> 19 * (2 * q)" by linarith
    then have "rat_of_int (20 * r) \<le> rat_of_int (19 * (2 * q))" by (simp only: of_int_le_iff)
    then have "20 * rat_of_int r \<le> 38 * rat_of_int q" by simp
    with q0 show ?thesis by (simp add: field_simps)
  qed
  from near have d: "\<bar>10 * v - 10 * a\<bar> \<le> 10 * pow2 (- 47)"
    by (simp add: a_def)
  note tiny = pow2_47
  have "rat_of_int n \<le> 10 * a + 1 / 2" and "10 * a + 1 / 2 < rat_of_int n + 1"
    using y lo hi by linarith+
  then have fa: "\<lfloor>10 * a + 1 / 2\<rfloor> = n" by (rule floor_unique)
  have "rat_of_int n \<le> 10 * v + 1 / 2" and "10 * v + 1 / 2 < rat_of_int n + 1"
    using y lo hi d tiny by linarith+
  then have fv: "\<lfloor>10 * v + 1 / 2\<rfloor> = n" by (rule floor_unique)
  from fa fv show ?thesis by (simp add: round_def a_def)
qed

lemma one_decimal_cong:
  assumes "(x < 0) = (y < 0)" and "round (10 * \<bar>x\<bar>) = round (10 * \<bar>y\<bar>)"
  shows "one_decimal x = one_decimal y"
  unfolding one_decimal_def using assms by (simp only:)

lemma toFixed1_js_divide:
  fixes s :: int and c :: nat
  assumes "0 < c" and "c \<le> 10" and "\<bar>s\<bar> \<le> 99 * int c"
  shows "toFixed1 large (js_divide s c) = one_decimal (rat_of_int s / rat_of_nat c)"
proof (cases "s = 0")
  case True
  with assms(1) have "js_divide s c = Finite 0" by (simp add: js_divide_def)
  moreover have "toFixed1 large (Finite 0) = one_decimal 0"
    by (rule toFixed1_one_decimal) simp
  ultimately show ?thesis using True by simp
next
  case False
  let ?a = "rat_of_int \<bar>s\<bar> / rat_of_nat c"
  from js_divide_value [OF False assms] obtain v where
    val: "js_divide s c = Finite (if s < 0 then - v else v)"
    and v0: "0 < v" and v100: "v \<le> 100"
    and near: "\<bar>v - ?a\<bar> \<le> pow2 (- 47)"
    and exact: "(\<exists>j. ?a * 8 = rat_of_int j) \<longrightarrow> v = ?a"
    by blast
  let ?x = "if s < 0 then - v else v"
  from assms(1) have c0: "0 < rat_of_nat c" by simp
  have absx: "\<bar>?x\<bar> = v" using v0 by simp
  have absq: "\<bar>rat_of_int s / rat_of_nat c\<bar> = ?a" using c0 by simp
  have "(100::rat) < 10 ^ 21" by simp
  with v100 absx have "\<bar>?x\<bar> < 10 ^ 21" by linarith
  then have "toFixed1 large (Finite ?x) = one_decimal ?x" by (rule toFixed1_one_decimal)
  also have "one_decimal ?x = one_decimal (rat_of_int s / rat_of_nat c)"
  proof (rule one_decimal_cong)
    have "(rat_of_int s / rat_of_nat c < 0) = (s < 0)"
      using c0 by (simp add: divide_less_0_iff)
    moreover have "(?x < 0) = (s < 0)" using v0 by simp
    ultimately show "(?x < 0) = (rat_of_int s / rat_of_nat c < 0)" by simp
  next
    have q: "0 < int c" "int c \<le> 10" using assms(1,2) by simp_all
    have near': "\<bar>v - rat_of_int \<bar>s\<bar> / rat_of_int (int c)\<bar> \<le> pow2 (- 47)"
      using near by simp
    have exact': "v = rat_of_int \<bar>s\<bar> / rat_of_int (int c)"
      if "(2 * int c) dvd (20 * \<bar>s\<bar> + int c)"
    proof -
      from halfway_is_dyadic [OF q that]
      have "\<exists>j. ?a * 8 = rat_of_int j" by simp
      with exact show ?thesis by simp
    qed
    have "round (10 * v) = round (10 * (rat_of_int \<bar>s\<bar> / rat_of_int (int c)))"
      using q near' exact' by (rule tenths_stable)
    then show "round (10 * \<bar>?x\<bar>) = round (10 * \<bar>rat_of_int s / rat_of_nat c\<bar>)"
      by (simp only: absx absq of_int_of_nat_eq)
  qed
  finally show ?thesis by (simp only: val)
qed

lemma sum_list_indicator:
  "distinct ks \<Longrightarrow>
   sum_list (map (\<lambda>k. if a = k then 1 else 0) ks) = (if a \<in> set ks then 1 else (0::nat))"
  by (induction ks) auto

lemma counts_add_up:
  "distinct ks \<Longrightarrow> f ` set xs \<subseteq> set ks \<Longrightarrow>
   sum_list (map (\<lambda>k. length (filter (\<lambda>r. f r = k) xs)) ks) = length xs"
proof (induction xs)
  case Nil
  then show ?case by simp
next
  case (Cons x xs)
  have "sum_list (map (\<lambda>k. length (filter (\<lambda>r. f r = k) (x # xs))) ks) =
      sum_list (map (\<lambda>k. (if f x = k then 1 else 0) + length (filter (\<lambda>r. f r = k) xs)) ks)"
    by (rule arg_cong [where f = sum_list]) (rule map_cong, simp_all)
  also have "\<dots> = sum_list (map (\<lambda>k. if f x = k then 1 else 0) ks) +
      sum_list (map (\<lambda>k. length (filter (\<lambda>r. f r = k) xs)) ks)"
    by (rule sum_list_addf)
  also have "\<dots> = 1 + length xs"
    using Cons by (simp add: sum_list_indicator)
  finally show ?case by simp
qed

lemma length_first_occurrences: "length (first_occurrences xs) \<le> length xs"
proof -
  have "length (first_occurrences xs) = card (set xs)"
    using distinct_card [of "first_occurrences xs"] by simp
  then show ?thesis by (simp add: card_length)
qed

lemma perPlayStats_result:
  "perPlayStats large calls =
     Inr (map (\<lambda>k. stat_entry large (k, tally_of calls k))
            (first_occurrences (map play_name calls)))"
  by (simp add: perPlayStats_def tally_calls_result comp_def)

lemma yards_sum_bounded:
  "\<forall>r \<in> set rs. - 99 \<le> yards r \<and> yards r \<le> 99 \<Longrightarrow>
   \<bar>sum_list (map yards rs)\<bar> \<le> 99 * int (length rs)"
  by (induction rs) auto

lemma stat_entry_expected:
  assumes "length calls \<le> 10"
    and "\<forall>r \<in> set calls. - 99 \<le> yards r \<and> yards r \<le> 99"
    and "k \<in> play_name ` set calls"
  shows "stat_entry large (k, tally_of calls k) = expected_stat calls k"
proof -
  let ?rs = "calls_named k calls"
  from assms(3) have "?rs \<noteq> []"
    by (auto simp add: calls_named_def filter_empty_conv)
  then have pos: "0 < length ?rs" by simp
  have "length ?rs \<le> length calls" by (simp add: calls_named_def)
  with assms(1) have few: "length ?rs \<le> 10" by simp
  from assms(2) have "\<forall>r \<in> set ?rs. - 99 \<le> yards r \<and> yards r \<le> 99"
    by (simp add: calls_named_def)
  then have "\<bar>yards_total k calls\<bar> \<le> 99 * int (length ?rs)"
    unfolding yards_total_def by (rule yards_sum_bounded)
  with pos few have fmt: "toFixed1 large (js_divide (yards_total k calls) (length ?rs))
      = one_decimal (rat_of_int (yards_total k calls) / rat_of_nat (length ?rs))"
    by (rule toFixed1_js_divide)
  show ?thesis
    unfolding stat_entry_def expected_stat_def tally_of_def
    by (simp only: prod.case tally.simps fmt)
qed

text \<open>
  C2. For every recent-calls list of at most ten entries (with yards in the range of the
  data model), the aggregation returns exactly one entry per distinct play name, in the
  order of the first occurrences in the list; the entries are grouped by name only; the
  count of an entry is the number of calls with that name, and its average is the sum of
  their yards over the count, written with exactly one decimal place and rounded to the
  nearest tenth (not truncated). The instances after the theorem are the example of the
  specification, Iso 4, Iso 6, Sweep -2, and a list whose average 2/3 is printed as 0.7.
\<close>

theorem perPlayStats_aggregates:
  assumes "length calls \<le> 10"
    and "\<forall>r \<in> set calls. - 99 \<le> yards r \<and> yards r \<le> 99"
  shows "perPlayStats large calls = Inr (expected_stats calls)"
proof -
  have "map (\<lambda>k. stat_entry large (k, tally_of calls k)) (first_occurrences (map play_name calls))
      = map (expected_stat calls) (first_occurrences (map play_name calls))"
  proof (rule map_cong [OF refl])
    fix k assume "k \<in> set (first_occurrences (map play_name calls))"
    then have "k \<in> play_name ` set calls" by simp
    with assms show "stat_entry large (k, tally_of calls k) = expected_stat calls k"
      by (rule stat_entry_expected)
  qed
  then show ?thesis
    by (simp only: perPlayStats_result expected_stats_def)
qed

theorem perPlayStats_aggregates_witness:
  "perPlayStats (\<lambda>x. []) example_calls =
     Inr [\<lparr>name = ustr ''Iso'', count = 2, avg = ustr ''5.0''\<rparr>,
          \<lparr>name = ustr ''Sweep'', count = 1, avg = ustr ''-2.0''\<rparr>] \<and>
   perPlayStats (\<lambda>x. []) [call ''Trap'' 1, call ''Trap'' 1, call ''Trap'' 0] =
     Inr [\<lparr>name = ustr ''Trap'', count = 3, avg = ustr ''0.7''\<rparr>]"
proof -
  have len: "length example_calls \<le> 10"
    and rng: "\<forall>r \<in> set example_calls. - 99 \<le> yards r \<and> yards r \<le> 99"
    by (simp_all add: example_calls_def call_def)
  have len': "length [call ''Trap'' 1, call ''Trap'' 1, call ''Trap'' 0] \<le> 10"
    and rng': "\<forall>r \<in> set [call ''Trap'' 1, call ''Trap'' 1, call ''Trap'' 0].
        - 99 \<le> yards r \<and> yards r \<le> 99"
    by (simp_all add: call_def)
  have e: "expected_stats example_calls =
     [\<lparr>name = ustr ''Iso'', count = 2, avg = ustr ''5.0''\<rparr>,
      \<lparr>name = ustr ''Sweep'', count = 1, avg = ustr ''-2.0''\<rparr>]"
    by code_simp
  have e': "expected_stats [call ''Trap'' 1, call ''Trap'' 1, call ''Trap'' 0] =
     [\<lparr>name = ustr ''Trap'', count = 3, avg = ustr ''0.7''\<rparr>]"
    by code_simp
  from perPlayStats_aggregates [OF len rng] perPlayStats_aggregates [OF len' rng'] e e'
  show ?thesis by simp
qed

text \<open>
  C8. For every recent-calls list the aggregation returns a list of entries in which
  every count is at least one, the names are pairwise distinct and are exactly the play
  names that occur in the list, and the counts add up to the length of the list; hence
  the output is empty exactly when the list is, and never longer than the list.
\<close>

theorem perPlayStats_invariants:
  "\<exists>ss. perPlayStats large calls = Inr ss \<and>
     (\<forall>s \<in> set ss. 1 \<le> count s) \<and>
     distinct (map name ss) \<and>
     set (map name ss) = play_name ` set calls \<and>
     sum_list (map count ss) = length calls \<and>
     (ss = [] \<longleftrightarrow> calls = []) \<and>
     length ss \<le> length calls"
proof -
  let ?ks = "first_occurrences (map play_name calls)"
  let ?ss = "map (\<lambda>k. stat_entry large (k, tally_of calls k)) ?ks"
  have names: "map name ?ss = ?ks"
    by (simp add: stat_entry_def comp_def)
  have counts: "map count ?ss = map (\<lambda>k. length (filter (\<lambda>r. play_name r = k) calls)) ?ks"
    by (simp add: stat_entry_def comp_def tally_of_def calls_named_def)
  have "\<forall>s \<in> set ?ss. 1 \<le> count s"
  proof
    fix s assume "s \<in> set ?ss"
    then obtain k where k: "k \<in> play_name ` set calls" and s: "s = stat_entry large (k, tally_of calls k)"
      by auto
    from k have "filter (\<lambda>r. play_name r = k) calls \<noteq> []"
      by (auto simp add: filter_empty_conv)
    then have "0 < length (filter (\<lambda>r. play_name r = k) calls)" by simp
    with s show "1 \<le> count s"
      by (simp add: stat_entry_def tally_of_def calls_named_def Suc_le_eq)
  qed
  moreover have "distinct (map name ?ss)" by (simp only: names distinct_first_occurrences)
  moreover have "set (map name ?ss) = play_name ` set calls" by (simp only: names) simp
  moreover have "sum_list (map count ?ss) = length calls"
    unfolding counts by (rule counts_add_up) simp_all
  moreover have "?ss = [] \<longleftrightarrow> calls = []" by (cases calls) simp_all
  moreover have "length ?ss \<le> length calls"
    using length_first_occurrences [of "map play_name calls"] by simp
  ultimately show ?thesis
    using perPlayStats_result [of large calls] by blast
qed

theorem perPlayStats_invariants_witness:
  "\<exists>ss. perPlayStats (\<lambda>x. []) example_calls = Inr ss \<and>
     distinct (map name ss) \<and>
     set (map name ss) = {ustr ''Iso'', ustr ''Sweep''} \<and>
     sum_list (map count ss) = 3 \<and> ss \<noteq> []"
proof -
  have names: "play_name ` set example_calls = {ustr ''Iso'', ustr ''Sweep''}"
    by (simp add: example_calls_def call_def)
  have len: "length example_calls = 3" and ne: "example_calls \<noteq> []"
    by (simp_all add: example_calls_def)
  from perPlayStats_invariants [of "\<lambda>x. []" example_calls] names len ne
  show ?thesis by auto
qed

section \<open>Further properties\<close>

text \<open>
  The bound of ten entries matters for the rounding. With twenty calls of one play that
  gain seven yards in all, the quotient 7/20 lies halfway between 0.3 and 0.4; the double
  nearest to it is slightly smaller, and \<open>toFixed(1)\<close> prints \<open>0.3\<close>, where rounding
  the quotient itself gives \<open>0.4\<close>.
\<close>

theorem perPlayStats_twenty_calls:
  "perPlayStats (\<lambda>x. []) twenty_calls =
     Inr [\<lparr>name = ustr ''Dive'', count = 20, avg = ustr ''0.3''\<rparr>] \<and>
   expected_stats twenty_calls = [\<lparr>name = ustr ''Dive'', count = 20, avg = ustr ''0.4''\<rparr>]"
  by code_simp

text \<open>
  Refreshing the games stores the list that the backend returns and, when the render had
  no active game and the list is not empty, selects its first game (the most recently
  dated one, since the query orders by date descending); a selection that exists is kept.
\<close>

theorem refreshGames_default_selection:
  assumes "be_selectGames be = Inr (Some (g # gs))"
  shows "games (refreshGames be agid st) = g # gs \<and>
         activeGameId (refreshGames be agid st)
           = (if truthy agid then activeGameId st else Some (g_id g))"
  using assms by (simp add: refreshGames_def Let_def issue_def)

theorem refreshGames_default_selection_witness:
  "games (refreshGames with_games None (scheduling None))
     = [\<lparr>g_id = ustr ''g9'', g_opponent = ustr ''Bears'', g_date = ustr ''2025-12-24''\<rparr>,
        \<lparr>g_id = ustr ''g2'', g_opponent = ustr ''Lions'', g_date = ustr ''2025-09-01''\<rparr>] \<and>
   activeGameId (refreshGames with_games None (scheduling None)) = Some (ustr ''g9'') \<and>
   activeGameId (refreshGames with_games (Some (ustr ''g1'')) (scheduling (Some (ustr ''g1''))))
     = Some (ustr ''g1'')"
proof -
  have sel: "be_selectGames with_games
      = Inr (Some (\<lparr>g_id = ustr ''g9'', g_opponent = ustr ''Bears'', g_date = ustr ''2025-12-24''\<rparr>
          # [\<lparr>g_id = ustr ''g2'', g_opponent = ustr ''Lions'', g_date = ustr ''2025-09-01''\<rparr>]))"
    by (simp add: with_games_def)
  have tr: "truthy (Some (ustr ''g1''))" by (simp add: ustr_def)
  have act: "activeGameId (scheduling (Some (ustr ''g1''))) = Some (ustr ''g1'')"
    by (simp add: scheduling_def)
  from refreshGames_default_selection [OF sel, of None "scheduling None"]
    refreshGames_default_selection
      [OF sel, of "Some (ustr ''g1'')" "scheduling (Some (ustr ''g1''))"] tr act
  show ?thesis by simp
qed

end
